theory Spec2Isabelle
  imports Main "HOL-Library.Monad_Syntax" "HOL-Library.Word"
begin

unbundle bit_operations_syntax

section \<open>Data model of lmdb_ext.c\<close>

text \<open>
  Addresses of the C structs that the Ruby objects wrap, and the opaque pointers handed
  out by the storage engine (\<^verbatim>\<open>MDB_env*\<close>, \<^verbatim>\<open>MDB_txn*\<close>). A nullable C pointer is an
  \<open>option\<close>: \<open>None\<close> is the null pointer.
\<close>

type_synonym addr = nat
type_synonym handle = nat

text \<open>
  Ruby values as far as the extension looks at them: \<open>nil\<close>, \<open>false\<close>, \<open>true\<close>, an
  Integer, a String, a Hash with Symbol keys (the options of \<^verbatim>\<open>open\<close>) and a
  \<^verbatim>\<open>T_DATA\<close> object wrapping the C struct at an address.
\<close>

datatype VALUE =
    Qnil
  | Qfalse
  | Qtrue
  | RInteger int
  | RString string
  | RHash "(string \<times> VALUE) list"
  | RData addr

text \<open>
  What a call can raise. \<open>Error msg\<close> is \<^verbatim>\<open>rb_raise(cError, msg)\<close>; \<open>EngineError code\<close>
  is what \<^verbatim>\<open>check(code)\<close> raises for a non-zero engine status (the class is picked from
  \<^verbatim>\<open>errors.h\<close>, the status code identifies it); the remaining ones are raised by the
  Ruby C API: \<^verbatim>\<open>rb_scan_args\<close> (\<open>ArgumentError\<close>), the conversions \<^verbatim>\<open>NUM2INT\<close>,
  \<^verbatim>\<open>NUM2SIZET\<close>, \<^verbatim>\<open>StringValueCStr\<close>, \<^verbatim>\<open>Data_Get_Struct\<close> (\<open>TypeError\<close>,
  \<open>RangeError\<close>), and \<open>Raised v\<close> is any exception or non-local exit that a caller's
  block leaves with.
\<close>

datatype error =
    Error string
  | EngineError int
  | ArgumentError
  | TypeError
  | RangeError
  | Raised VALUE

text \<open>The structs of lines 53-80. \<^verbatim>\<open>int\<close> fields are integers: no count here gets near \<open>2^31\<close>.\<close>

record Environment =
  env :: "handle option"
  e_refcount :: int

record Transaction =
  venv :: VALUE
  environment :: addr
  vparent :: VALUE
  parent :: "addr option"
  refcount :: int
  txn :: "handle option"

record Database =
  d_vtxn :: VALUE
  d_transaction :: addr
  dbi :: nat
  d_open :: int

record Cursor =
  c_vtxn :: VALUE
  c_transaction :: addr
  cur :: "handle option"

text \<open>
  The fields of \<^verbatim>\<open>MDB_stat\<close> and \<^verbatim>\<open>MDB_envinfo\<close> that lines 103-122 read; the engine
  fills them.
\<close>

record MDB_stat =
  ms_psize :: nat
  ms_depth :: nat
  ms_branch_pages :: nat
  ms_leaf_pages :: nat
  ms_overflow_pages :: nat
  ms_entries :: nat

record MDB_envinfo =
  me_mapaddr :: nat
  me_mapsize :: nat
  me_last_pgno :: nat
  me_last_txnid :: nat
  me_maxreaders :: nat
  me_numreaders :: nat

text \<open>The calls made to the storage engine, in the order they are made, with their arguments.\<close>

datatype mdb_call =
    Mdb_env_create
  | Mdb_env_close "handle option"
  | Mdb_env_stat "handle option"
  | Mdb_env_info "handle option"
  | Mdb_env_copy "handle option" string
  | Mdb_env_sync "handle option" int
  | Mdb_env_set_maxreaders "handle option" "32 word"
  | Mdb_env_set_mapsize "handle option" "64 word"
  | Mdb_env_set_maxdbs "handle option" "32 word"
  | Mdb_env_open "handle option" string "32 word" "32 word"
  | Mdb_env_get_flags "handle option"
  | Mdb_env_set_flags "handle option" "32 word" int
  | Mdb_env_get_path "handle option"
  | Mdb_txn_begin "handle option" "handle option" "32 word"
  | Mdb_txn_env "handle option"
  | Mdb_txn_abort "handle option"
  | Mdb_txn_commit "handle option"
  | Mdb_txn_renew "handle option"
  | Mdb_txn_reset "handle option"
  | Mdb_dbi_open "handle option" string "32 word"
  | Mdb_drop "handle option" nat int

text \<open>
  The heap of wrapped structs, one map per struct type, the next address
  \<^verbatim>\<open>Data_Make_Struct\<close> hands out, the addresses given back with \<^verbatim>\<open>free\<close>, and the
  trace of engine calls.
\<close>

record state =
  envs :: "addr \<Rightarrow> Environment"
  txns :: "addr \<Rightarrow> Transaction"
  dbs :: "addr \<Rightarrow> Database"
  curs :: "addr \<Rightarrow> Cursor"
  stat_structs :: "addr \<Rightarrow> MDB_stat"
  info_structs :: "addr \<Rightarrow> MDB_envinfo"
  brk :: addr
  freed :: "addr list"
  calls :: "mdb_call list"

text \<open>
  A call returns a value or raises, and leaves a heap either way. Where a function can
  fail to return at all (the loop of \<^verbatim>\<open>transaction_active\<close>, a caller's block) its model
  returns an \<open>option\<close>, \<open>None\<close> for no return.
\<close>

type_synonym 'a result = "(error + 'a) \<times> state"

definition mdb :: "mdb_call \<Rightarrow> state \<Rightarrow> state" where
  "mdb c s = s\<lparr>calls := calls s @ [c]\<rparr>"

definition upd_env :: "addr \<Rightarrow> (Environment \<Rightarrow> Environment) \<Rightarrow> state \<Rightarrow> state" where
  "upd_env a f s = s\<lparr>envs := (envs s)(a := f (envs s a))\<rparr>"

definition upd_txn :: "addr \<Rightarrow> (Transaction \<Rightarrow> Transaction) \<Rightarrow> state \<Rightarrow> state" where
  "upd_txn a f s = s\<lparr>txns := (txns s)(a := f (txns s a))\<rparr>"

definition upd_db :: "addr \<Rightarrow> (Database \<Rightarrow> Database) \<Rightarrow> state \<Rightarrow> state" where
  "upd_db a f s = s\<lparr>dbs := (dbs s)(a := f (dbs s a))\<rparr>"

text \<open>\<^verbatim>\<open>free\<close> of a struct.\<close>

definition free :: "addr \<Rightarrow> state \<Rightarrow> state" where
  "free a s = s\<lparr>freed := freed s @ [a]\<rparr>"

text \<open>\<^verbatim>\<open>Data_Make_Struct\<close>: the address of the new struct is the next free one.\<close>

definition alloc :: "state \<Rightarrow> state" where
  "alloc s = s\<lparr>brk := Suc (brk s)\<rparr>"

section \<open>The Ruby C API used by the extension\<close>

text \<open>
  \<^verbatim>\<open>rb_scan_args(argc, argv, "MO", ...)\<close> with \<open>M\<close> mandatory and \<open>O\<close> optional arguments:
  raises on a wrong number of arguments, otherwise returns the number of arguments given;
  an optional argument that was not given reads as \<open>nil\<close>.
\<close>

definition rb_scan_args :: "nat \<Rightarrow> nat \<Rightarrow> VALUE list \<Rightarrow> error + nat" where
  "rb_scan_args req opt argv =
     (if length argv < req \<or> req + opt < length argv then Inl ArgumentError
      else Inr (length argv))"

definition arg :: "VALUE list \<Rightarrow> nat \<Rightarrow> VALUE" where
  "arg argv i = (if i < length argv then argv ! i else Qnil)"

definition NIL_P :: "VALUE \<Rightarrow> bool" where
  "NIL_P v = (v = Qnil)"

definition RTEST :: "VALUE \<Rightarrow> bool" where
  "RTEST v = (v \<noteq> Qnil \<and> v \<noteq> Qfalse)"

text \<open>\<^verbatim>\<open>NUM2INT\<close>: an Integer that fits a 32-bit \<^verbatim>\<open>int\<close>.\<close>

fun NUM2INT :: "VALUE \<Rightarrow> error + int" where
  "NUM2INT (RInteger i) = (if - (2 ^ 31) \<le> i \<and> i < 2 ^ 31 then Inr i else Inl RangeError)"
| "NUM2INT _ = Inl TypeError"

text \<open>
  \<^verbatim>\<open>NUM2SIZET\<close> is \<^verbatim>\<open>NUM2ULONG\<close> where \<^verbatim>\<open>size_t\<close> is the 64-bit
  \<^verbatim>\<open>unsigned long\<close>: a small Integer is cast to \<^verbatim>\<open>unsigned long\<close> without a range
  check and a big one is converted when it lies between \<open>-2^63\<close> and \<open>2^64 - 1\<close>,
  so a negative Integer from \<open>-2^63\<close> on wraps around to its two's complement; only an
  Integer outside that range raises.
\<close>

fun NUM2SIZET :: "VALUE \<Rightarrow> error + 64 word" where
  "NUM2SIZET (RInteger i) =
     (if - (2 ^ 63) \<le> i \<and> i < 2 ^ 64 then Inr (word_of_int i) else Inl RangeError)"
| "NUM2SIZET _ = Inl TypeError"

text \<open>\<^verbatim>\<open>StringValueCStr\<close>: a String without a null byte.\<close>

fun StringValueCStr :: "VALUE \<Rightarrow> error + string" where
  "StringValueCStr (RString str) = (if CHR 0x00 \<in> set str then Inl ArgumentError else Inr str)"
| "StringValueCStr _ = Inl TypeError"

text \<open>\<^verbatim>\<open>Data_Get_Struct\<close>: the struct a \<^verbatim>\<open>T_DATA\<close> object wraps.\<close>

fun Data_Get_Struct :: "VALUE \<Rightarrow> error + addr" where
  "Data_Get_Struct (RData a) = Inr a"
| "Data_Get_Struct _ = Inl TypeError"

text \<open>\<^verbatim>\<open>rb_hash_aref(hash, ID2SYM(rb_intern(name)))\<close> on the entries of a Hash.\<close>

definition rb_hash_aref :: "(string \<times> VALUE) list \<Rightarrow> string \<Rightarrow> VALUE" where
  "rb_hash_aref kvs name = (case map_of kvs name of None \<Rightarrow> Qnil | Some v \<Rightarrow> v)"

section \<open>Constants of lmdb.h\<close>

text \<open>
  The flag bits that the macro \<^verbatim>\<open>ENV_FLAGS\<close> (lines 8-15) joins, with the values the
  engine's header gives them.
\<close>

definition MDB_FIXEDMAP :: "32 word" where "MDB_FIXEDMAP = 0x01"
definition MDB_NOSUBDIR :: "32 word" where "MDB_NOSUBDIR = 0x4000"
definition MDB_NOSYNC :: "32 word" where "MDB_NOSYNC = 0x10000"
definition MDB_RDONLY :: "32 word" where "MDB_RDONLY = 0x20000"
definition MDB_NOMETASYNC :: "32 word" where "MDB_NOMETASYNC = 0x40000"
definition MDB_WRITEMAP :: "32 word" where "MDB_WRITEMAP = 0x80000"
definition MDB_MAPASYNC :: "32 word" where "MDB_MAPASYNC = 0x100000"

definition ENV_FLAGS :: "32 word" where
  "ENV_FLAGS =
     MDB_FIXEDMAP OR MDB_NOSUBDIR OR MDB_NOSYNC OR MDB_RDONLY OR MDB_NOMETASYNC
       OR MDB_WRITEMAP OR MDB_MAPASYNC"

text \<open>Lines 125-139: \<^verbatim>\<open>check\<close> returns on status 0 and raises on any other.\<close>

definition check :: "int \<Rightarrow> error + unit" where
  "check code = (if code = 0 then Inr () else Inl (EngineError code))"

section \<open>Environment functions\<close>

text \<open>Lines 145-148, the check of the macro \<^verbatim>\<open>ENVIRONMENT\<close>.\<close>

definition environment_check :: "state \<Rightarrow> addr \<Rightarrow> error + unit" where
  "environment_check s a =
     (if env (envs s a) = None then Inl (Error ''Environment is closed'') else Inr ())"

text \<open>Lines 150-156.\<close>

definition environment_deref :: "addr \<Rightarrow> state \<Rightarrow> state" where
  "environment_deref a s =
     (let s1 = upd_env a (\<lambda>e. e\<lparr>e_refcount := e_refcount e - 1\<rparr>) s in
      if e_refcount (envs s1 a) = 0 then
        free a (if env (envs s1 a) \<noteq> None then mdb (Mdb_env_close (env (envs s1 a))) s1 else s1)
      else s1)"

text \<open>Lines 158-163.\<close>

definition environment_close :: "addr \<Rightarrow> state \<Rightarrow> VALUE result" where
  "environment_close self s =
     (case environment_check s self of
        Inl e \<Rightarrow> (Inl e, s)
      | Inr _ \<Rightarrow>
          (Inr Qnil,
           upd_env self (\<lambda>e. e\<lparr>env := None\<rparr>) (mdb (Mdb_env_close (env (envs s self))) s)))"

text \<open>
  Lines 165-171. \<open>rc\<close> is the status \<^verbatim>\<open>mdb_env_stat\<close> returns and \<open>st\<close> what the new
  struct holds after the call.
\<close>

definition environment_stat :: "addr \<Rightarrow> int \<Rightarrow> MDB_stat \<Rightarrow> state \<Rightarrow> VALUE result" where
  "environment_stat self rc st s =
     (case environment_check s self of
        Inl e \<Rightarrow> (Inl e, s)
      | Inr _ \<Rightarrow>
          (let vstat = brk s;
               s1 = (alloc s)\<lparr>stat_structs := (stat_structs s)(vstat := st)\<rparr>;
               s2 = mdb (Mdb_env_stat (env (envs s1 self))) s1
           in case check rc of
                Inl e \<Rightarrow> (Inl e, s2)
              | Inr _ \<Rightarrow> (Inr (RData vstat), s2)))"

text \<open>Lines 173-181.\<close>

definition environment_info :: "addr \<Rightarrow> int \<Rightarrow> MDB_envinfo \<Rightarrow> state \<Rightarrow> VALUE result" where
  "environment_info self rc info s =
     (case environment_check s self of
        Inl e \<Rightarrow> (Inl e, s)
      | Inr _ \<Rightarrow>
          (let vinfo = brk s;
               s1 = (alloc s)\<lparr>info_structs := (info_structs s)(vinfo := info)\<rparr>;
               s2 = mdb (Mdb_env_info (env (envs s1 self))) s1
           in case check rc of
                Inl e \<Rightarrow> (Inl e, s2)
              | Inr _ \<Rightarrow> (Inr (RData vinfo), s2)))"

text \<open>Lines 183-187.\<close>

definition environment_copy :: "addr \<Rightarrow> VALUE \<Rightarrow> int \<Rightarrow> state \<Rightarrow> VALUE result" where
  "environment_copy self path rc s =
     (case environment_check s self of
        Inl e \<Rightarrow> (Inl e, s)
      | Inr _ \<Rightarrow>
          (case StringValueCStr path of
             Inl e \<Rightarrow> (Inl e, s)
           | Inr p \<Rightarrow>
               (let s1 = mdb (Mdb_env_copy (env (envs s self)) p) s
                in case check rc of
                     Inl e \<Rightarrow> (Inl e, s1)
                   | Inr _ \<Rightarrow> (Inr Qnil, s1))))"

text \<open>Lines 189-197.\<close>

definition environment_sync :: "VALUE list \<Rightarrow> addr \<Rightarrow> int \<Rightarrow> state \<Rightarrow> VALUE result" where
  "environment_sync argv self rc s =
     (case environment_check s self of
        Inl e \<Rightarrow> (Inl e, s)
      | Inr _ \<Rightarrow>
          (case rb_scan_args 0 1 argv of
             Inl e \<Rightarrow> (Inl e, s)
           | Inr n \<Rightarrow>
               (let force = arg argv 0;
                    s1 = mdb (Mdb_env_sync (env (envs s self))
                               (if n = 1 \<and> RTEST force then 0 else 1)) s
                in case check rc of
                     Inl e \<Rightarrow> (Inl e, s1)
                   | Inr _ \<Rightarrow> (Inr Qnil, s1))))"

text \<open>
  Lines 206-229: the local variables of \<^verbatim>\<open>environment_open\<close> with their defaults, and
  the options that replace them when a second argument is given. The second argument is
  read as a Hash; there is no result when it is none.
\<close>

record open_options =
  o_flags :: int
  o_mode :: "32 word"
  o_maxreaders :: int
  o_maxdbs :: int
  o_mapsize :: "64 word"

text \<open>The default \<^verbatim>\<open>mode\<close> is octal 755, which is 493.\<close>

definition default_options :: open_options where
  "default_options =
     \<lparr>o_flags = 0, o_mode = 493, o_maxreaders = - 1, o_maxdbs = 10, o_mapsize = 0\<rparr>"

text \<open>
  One option, as each of the five is read: \<^verbatim>\<open>value = rb_hash_aref(options, ...);\<close>
  \<^verbatim>\<open>if (!NIL_P(value)) var = CONVERT(value);\<close> with the variable keeping its default
  otherwise.
\<close>

definition read_option ::
  "(string \<times> VALUE) list \<Rightarrow> string \<Rightarrow> (VALUE \<Rightarrow> error + 'a) \<Rightarrow> 'a \<Rightarrow> error + 'a" where
  "read_option kvs name convert var =
     (let value = rb_hash_aref kvs name
      in if \<not> NIL_P value then convert value else Inr var)"

definition read_options :: "(string \<times> VALUE) list \<Rightarrow> error + open_options" where
  "read_options kvs =
     (case read_option kvs ''flags'' NUM2INT (o_flags default_options) of
        Inl e \<Rightarrow> Inl e
      | Inr flags \<Rightarrow>
     (case read_option kvs ''mode'' (\<lambda>v. map_sum id word_of_int (NUM2INT v))
             (o_mode default_options) of
        Inl e \<Rightarrow> Inl e
      | Inr mode \<Rightarrow>
     (case read_option kvs ''maxreaders'' NUM2INT (o_maxreaders default_options) of
        Inl e \<Rightarrow> Inl e
      | Inr maxreaders \<Rightarrow>
     (case read_option kvs ''maxdbs'' NUM2INT (o_maxdbs default_options) of
        Inl e \<Rightarrow> Inl e
      | Inr maxdbs \<Rightarrow>
     (case read_option kvs ''mapsize'' NUM2SIZET (o_mapsize default_options) of
        Inl e \<Rightarrow> Inl e
      | Inr mapsize \<Rightarrow>
          Inr \<lparr>o_flags = flags, o_mode = mode, o_maxreaders = maxreaders,
               o_maxdbs = maxdbs, o_mapsize = mapsize\<rparr>)))))"

text \<open>
  What the engine answers to the calls of \<^verbatim>\<open>environment_open\<close>: the status of each call
  and the handle \<^verbatim>\<open>mdb_env_create\<close> stores.
\<close>

record open_replies =
  rc_create :: int
  new_env :: handle
  rc_maxreaders :: int
  rc_mapsize :: int
  rc_maxdbs :: int
  rc_open :: int

text \<open>
  Lines 231-243, from \<^verbatim>\<open>mdb_env_create\<close> to \<^verbatim>\<open>mdb_env_open\<close>: the result is the address
  \<open>v\<close> of the new Environment (\<^verbatim>\<open>venv\<close> in the source).
\<close>

definition environment_setup :: "VALUE \<Rightarrow> open_options \<Rightarrow> open_replies \<Rightarrow> state \<Rightarrow> addr result" where
  "environment_setup path opts r s =
     (let s1 = mdb Mdb_env_create s
      in case check (rc_create r) of
           Inl e \<Rightarrow> (Inl e, s1)
         | Inr _ \<Rightarrow>
      (let v = brk s1;
           s2 = (alloc s1)\<lparr>envs := (envs s1)(v := \<lparr>env = Some (new_env r), e_refcount = 1\<rparr>)\<rparr>;
           h = env (envs s2 v);
           s3 = (if o_maxreaders opts > 0
                 then mdb (Mdb_env_set_maxreaders h (word_of_int (o_maxreaders opts))) s2
                 else s2)
       in case (if o_maxreaders opts > 0 then check (rc_maxreaders r) else Inr ()) of
           Inl e \<Rightarrow> (Inl e, s3)
         | Inr _ \<Rightarrow>
      (let s4 = (if o_mapsize opts > 0 then mdb (Mdb_env_set_mapsize h (o_mapsize opts)) s3
                 else s3)
       in case (if o_mapsize opts > 0 then check (rc_mapsize r) else Inr ()) of
           Inl e \<Rightarrow> (Inl e, s4)
         | Inr _ \<Rightarrow>
      (let s5 = mdb (Mdb_env_set_maxdbs h
                      (word_of_int (if o_maxdbs opts \<le> 0 then 1 else o_maxdbs opts))) s4
       in case check (rc_maxdbs r) of
           Inl e \<Rightarrow> (Inl e, s5)
         | Inr _ \<Rightarrow>
      (case StringValueCStr path of
           Inl e \<Rightarrow> (Inl e, s5)
         | Inr p \<Rightarrow>
      (let s6 = mdb (Mdb_env_open h p (word_of_int (o_flags opts)) (o_mode opts)) s5
       in case check (rc_open r) of
           Inl e \<Rightarrow> (Inl e, s6)
         | Inr _ \<Rightarrow> (Inr v, s6)))))))"

text \<open>
  \<^verbatim>\<open>rb_ensure(rb_yield, v, environment_close, v)\<close>: the block runs, then
  \<^verbatim>\<open>environment_close\<close> whatever the block did; what the block returned or raised goes on
  unless the close itself raises.
\<close>

type_synonym block = "VALUE \<Rightarrow> state \<Rightarrow> VALUE result option"

definition ensure_close :: "block \<Rightarrow> addr \<Rightarrow> state \<Rightarrow> VALUE result option" where
  "ensure_close blk v s =
     do {
       (r, s1) \<leftarrow> blk (RData v) s;
       Some (case environment_close v s1 of
               (Inl e, s2) \<Rightarrow> (Inl e, s2)
             | (Inr _, s2) \<Rightarrow> (r, s2))
     }"

text \<open>Lines 199-248. \<open>blk\<close> is the block of the call, when one is given.\<close>

definition environment_open ::
  "VALUE list \<Rightarrow> block option \<Rightarrow> open_replies \<Rightarrow> state \<Rightarrow> VALUE result option" where
  "environment_open argv blk r s =
     (case rb_scan_args 1 1 argv of
        Inl e \<Rightarrow> Some (Inl e, s)
      | Inr n \<Rightarrow>
          (let path = arg argv 0; options = arg argv 1
           in case (if n = 2
                    then (case options of RHash kvs \<Rightarrow> Some (read_options kvs) | _ \<Rightarrow> None)
                    else Some (Inr default_options)) of
                None \<Rightarrow> None
              | Some (Inl e) \<Rightarrow> Some (Inl e, s)
              | Some (Inr opts) \<Rightarrow>
                  (case environment_setup path opts r s of
                     (Inl e, s1) \<Rightarrow> Some (Inl e, s1)
                   | (Inr v, s1) \<Rightarrow>
                       (case blk of
                          Some b \<Rightarrow> ensure_close b v s1
                        | None \<Rightarrow> Some (Inr (RData v), s1)))))"

text \<open>
  Lines 250-255. \<open>rc\<close> and \<open>flags\<close> are the status of \<^verbatim>\<open>mdb_env_get_flags\<close> and the flags
  it stores.
\<close>

definition environment_flags :: "addr \<Rightarrow> int \<Rightarrow> 32 word \<Rightarrow> state \<Rightarrow> VALUE result" where
  "environment_flags self rc flags s =
     (case environment_check s self of
        Inl e \<Rightarrow> (Inl e, s)
      | Inr _ \<Rightarrow>
          (let s1 = mdb (Mdb_env_get_flags (env (envs s self))) s
           in case check rc of
                Inl e \<Rightarrow> (Inl e, s1)
              | Inr _ \<Rightarrow> (Inr (RInteger (sint (flags AND ENV_FLAGS))), s1)))"

text \<open>Lines 257-262.\<close>

definition environment_path :: "addr \<Rightarrow> int \<Rightarrow> string \<Rightarrow> state \<Rightarrow> VALUE result" where
  "environment_path self rc path s =
     (case environment_check s self of
        Inl e \<Rightarrow> (Inl e, s)
      | Inr _ \<Rightarrow>
          (let s1 = mdb (Mdb_env_get_path (env (envs s self))) s
           in case check rc of
                Inl e \<Rightarrow> (Inl e, s1)
              | Inr _ \<Rightarrow> (Inr (RString path), s1)))"

text \<open>
  Lines 264-271. The argument is converted in the declaration, before the check of the
  handle. The engine answers four calls.
\<close>

record set_flags_replies =
  rc_get :: int
  oldflags :: "32 word"
  rc_clear :: int
  rc_set :: int
  rc_get2 :: int
  newflags :: "32 word"

definition environment_set_flags ::
  "addr \<Rightarrow> VALUE \<Rightarrow> set_flags_replies \<Rightarrow> state \<Rightarrow> VALUE result" where
  "environment_set_flags self vflags r s =
     (case NUM2INT vflags of
        Inl e \<Rightarrow> (Inl e, s)
      | Inr i \<Rightarrow>
      (let flags = (word_of_int i :: 32 word)
       in case environment_check s self of
        Inl e \<Rightarrow> (Inl e, s)
      | Inr _ \<Rightarrow>
      (let h = env (envs s self);
           s1 = mdb (Mdb_env_get_flags h) s
       in case check (rc_get r) of
        Inl e \<Rightarrow> (Inl e, s1)
      | Inr _ \<Rightarrow>
      (let s2 = mdb (Mdb_env_set_flags h (oldflags r AND ENV_FLAGS) 0) s1
       in case check (rc_clear r) of
        Inl e \<Rightarrow> (Inl e, s2)
      | Inr _ \<Rightarrow>
      (let s3 = mdb (Mdb_env_set_flags h flags 1) s2
       in case check (rc_set r) of
        Inl e \<Rightarrow> (Inl e, s3)
      | Inr _ \<Rightarrow> environment_flags self (rc_get2 r) (newflags r) s3)))))"

text \<open>
  The end of a scoped transaction, lines 292-303 and 394-405: \<^verbatim>\<open>rb_protect\<close> runs the
  block; when it raised, the transaction is aborted, its handle cleared and the exception
  raised again by \<^verbatim>\<open>rb_jump_tag\<close>; otherwise it is committed, its handle cleared and the
  block's value returned.
\<close>

definition scoped :: "block \<Rightarrow> addr \<Rightarrow> state \<Rightarrow> VALUE result option" where
  "scoped blk vtxn s =
     do {
       (r, s1) \<leftarrow> blk (RData vtxn) s;
       Some (case r of
               Inl exception \<Rightarrow>
                 (Inl exception,
                  upd_txn vtxn (\<lambda>t. t\<lparr>txn := None\<rparr>) (mdb (Mdb_txn_abort (txn (txns s1 vtxn))) s1))
             | Inr result \<Rightarrow>
                 (Inr result,
                  upd_txn vtxn (\<lambda>t. t\<lparr>txn := None\<rparr>) (mdb (Mdb_txn_commit (txn (txns s1 vtxn))) s1)))
     }"

text \<open>
  Lines 273-305. \<open>rc\<close> is the status of \<^verbatim>\<open>mdb_txn_begin\<close> and \<open>h\<close> the transaction
  handle it stores.
\<close>

definition environment_transaction ::
  "VALUE list \<Rightarrow> addr \<Rightarrow> block option \<Rightarrow> int \<Rightarrow> handle \<Rightarrow> state \<Rightarrow> VALUE result option" where
  "environment_transaction argv self blk rc h s =
     (case environment_check s self of
        Inl e \<Rightarrow> Some (Inl e, s)
      | Inr _ \<Rightarrow>
      (case rb_scan_args 0 1 argv of
        Inl e \<Rightarrow> Some (Inl e, s)
      | Inr n \<Rightarrow>
      (let readonly = arg argv 0;
           flags = (if n = 1 \<and> \<not> NIL_P readonly then MDB_RDONLY else 0);
           s1 = mdb (Mdb_txn_begin (env (envs s self)) None flags) s
       in case check rc of
        Inl e \<Rightarrow> Some (Inl e, s1)
      | Inr _ \<Rightarrow>
      (let vtxn = brk s1;
           s2 = (alloc s1)\<lparr>txns := (txns s1)(vtxn :=
                  \<lparr>venv = RData self, environment = self, vparent = Qnil, parent = None,
                   refcount = 1, txn = Some h\<rparr>)\<rparr>;
           s3 = upd_env self (\<lambda>e. e\<lparr>e_refcount := e_refcount e + 1\<rparr>) s2
       in case blk of
            Some b \<Rightarrow> scoped b vtxn s3
          | None \<Rightarrow> Some (Inr (RData vtxn), s3)))))"

section \<open>Transaction functions\<close>

text \<open>
  Lines 311-318: the loop walks the \<^verbatim>\<open>parent\<close> pointers from the transaction up and
  returns 0 at the first null \<^verbatim>\<open>txn\<close>, 1 when it falls off the chain. On a cyclic chain
  of non-null handles it never returns: that is the value \<open>None\<close>.
\<close>

partial_function (option) transaction_active :: "state \<Rightarrow> addr option \<Rightarrow> bool option" where
  "transaction_active s p =
     (case p of
        None \<Rightarrow> Some True
      | Some a \<Rightarrow>
          if txn (txns s a) = None then Some False
          else transaction_active s (parent (txns s a)))"

text \<open>Lines 320-323, the check of the macro \<^verbatim>\<open>TRANSACTION\<close>.\<close>

definition transaction_check :: "state \<Rightarrow> addr \<Rightarrow> (error + unit) option" where
  "transaction_check s a =
     do {
       active \<leftarrow> transaction_active s (Some a);
       Some (if \<not> active then Inl (Error ''Transaction is terminated'') else Inr ())
     }"

text \<open>Lines 331-340.\<close>

partial_function (option) transaction_deref :: "addr \<Rightarrow> state \<Rightarrow> state option" where
  "transaction_deref a s =
     (let s1 = upd_txn a (\<lambda>t. t\<lparr>refcount := refcount t - 1\<rparr>) s in
      if refcount (txns s1 a) = 0 then
        do {
          active \<leftarrow> transaction_active s1 (Some a);
          let s2 = (if active then mdb (Mdb_txn_abort (txn (txns s1 a))) s1 else s1);
          s3 \<leftarrow> (case parent (txns s2 a) of
                  Some p \<Rightarrow> transaction_deref p s2
                | None \<Rightarrow> Some s2);
          Some (free a (environment_deref (environment (txns s3 a)) s3))
        }
      else Some s1)"

text \<open>Lines 342-350.\<close>

definition transaction_environment :: "addr \<Rightarrow> state \<Rightarrow> VALUE result option" where
  "transaction_environment self s =
     do {
       c \<leftarrow> transaction_check s self;
       Some (case c of
               Inl e \<Rightarrow> (Inl e, s)
             | Inr _ \<Rightarrow> (Inr (venv (txns s self)), s))
     }"

definition transaction_parent :: "addr \<Rightarrow> state \<Rightarrow> VALUE result option" where
  "transaction_parent self s =
     do {
       c \<leftarrow> transaction_check s self;
       Some (case c of
               Inl e \<Rightarrow> (Inl e, s)
             | Inr _ \<Rightarrow> (Inr (vparent (txns s self)), s))
     }"

text \<open>Lines 352-357.\<close>

definition transaction_abort :: "addr \<Rightarrow> state \<Rightarrow> VALUE result option" where
  "transaction_abort self s =
     do {
       c \<leftarrow> transaction_check s self;
       Some (case c of
               Inl e \<Rightarrow> (Inl e, s)
             | Inr _ \<Rightarrow>
                 (Inr Qnil,
                  upd_txn self (\<lambda>t. t\<lparr>txn := None\<rparr>) (mdb (Mdb_txn_abort (txn (txns s self))) s)))
     }"

text \<open>Lines 359-364.\<close>

definition transaction_commit :: "addr \<Rightarrow> state \<Rightarrow> VALUE result option" where
  "transaction_commit self s =
     do {
       c \<leftarrow> transaction_check s self;
       Some (case c of
               Inl e \<Rightarrow> (Inl e, s)
             | Inr _ \<Rightarrow>
                 (Inr Qnil,
                  upd_txn self (\<lambda>t. t\<lparr>txn := None\<rparr>) (mdb (Mdb_txn_commit (txn (txns s self))) s)))
     }"

text \<open>Lines 366-376.\<close>

definition transaction_renew :: "addr \<Rightarrow> state \<Rightarrow> VALUE result option" where
  "transaction_renew self s =
     do {
       c \<leftarrow> transaction_check s self;
       Some (case c of
               Inl e \<Rightarrow> (Inl e, s)
             | Inr _ \<Rightarrow> (Inr Qnil, mdb (Mdb_txn_renew (txn (txns s self))) s))
     }"

definition transaction_reset :: "addr \<Rightarrow> state \<Rightarrow> VALUE result option" where
  "transaction_reset self s =
     do {
       c \<leftarrow> transaction_check s self;
       Some (case c of
               Inl e \<Rightarrow> (Inl e, s)
             | Inr _ \<Rightarrow> (Inr Qnil, mdb (Mdb_txn_reset (txn (txns s self))) s))
     }"

text \<open>
  Lines 378-407. \<open>e\<close> is the environment handle \<^verbatim>\<open>mdb_txn_env\<close> returns, \<open>rc\<close> the status
  of \<^verbatim>\<open>mdb_txn_begin\<close> and \<open>h\<close> the transaction handle it stores.
\<close>

definition transaction_transaction ::
  "addr \<Rightarrow> block option \<Rightarrow> handle option \<Rightarrow> int \<Rightarrow> handle \<Rightarrow> state \<Rightarrow> VALUE result option" where
  "transaction_transaction self blk e rc h s =
     do {
       c \<leftarrow> transaction_check s self;
       (case c of
          Inl err \<Rightarrow> Some (Inl err, s)
        | Inr _ \<Rightarrow>
        (let s1 = mdb (Mdb_txn_begin e (txn (txns s self)) 0)
                    (mdb (Mdb_txn_env (txn (txns s self))) s)
         in case check rc of
          Inl err \<Rightarrow> Some (Inl err, s1)
        | Inr _ \<Rightarrow>
        (let vtxn = brk s1;
             s2 = (alloc s1)\<lparr>txns := (txns s1)(vtxn :=
                    \<lparr>venv = venv (txns s1 self), environment = environment (txns s1 self),
                     vparent = RData self, parent = Some self, refcount = 1, txn = Some h\<rparr>)\<rparr>;
             s3 = upd_env (environment (txns s2 vtxn)) (\<lambda>e. e\<lparr>e_refcount := e_refcount e + 1\<rparr>) s2
         in case blk of
              Some b \<Rightarrow> scoped b vtxn s3
            | None \<Rightarrow> Some (Inr (RData vtxn), s3))))
     }"

section \<open>Database functions\<close>

text \<open>Lines 418-422, the check of the macro \<^verbatim>\<open>DATABASE\<close>.\<close>

definition database_check :: "state \<Rightarrow> addr \<Rightarrow> (error + unit) option" where
  "database_check s a =
     do {
       c \<leftarrow> transaction_check s (d_transaction (dbs s a));
       Some (case c of
               Inl e \<Rightarrow> Inl e
             | Inr _ \<Rightarrow> if d_open (dbs s a) = 0 then Inl (Error ''Database is closed'') else Inr ())
     }"

text \<open>
  Lines 435-453, the method \<^verbatim>\<open>open\<close> of a Transaction. \<open>rc\<close> is the status of
  \<^verbatim>\<open>mdb_dbi_open\<close> and \<open>d\<close> the table handle it stores.
\<close>

definition database_open ::
  "VALUE list \<Rightarrow> addr \<Rightarrow> int \<Rightarrow> nat \<Rightarrow> state \<Rightarrow> VALUE result option" where
  "database_open argv self rc d s =
     do {
       c \<leftarrow> transaction_check s self;
       Some (case c of
          Inl e \<Rightarrow> (Inl e, s)
        | Inr _ \<Rightarrow>
        (case rb_scan_args 1 1 argv of
          Inl e \<Rightarrow> (Inl e, s)
        | Inr n \<Rightarrow>
        (let vname = arg argv 0; vflags = arg argv 1
         in case StringValueCStr vname of
          Inl e \<Rightarrow> (Inl e, s)
        | Inr name \<Rightarrow>
        (case (if n = 3 then NUM2INT vflags else Inr 0) of
          Inl e \<Rightarrow> (Inl e, s)
        | Inr flags \<Rightarrow>
        (let s1 = mdb (Mdb_dbi_open (txn (txns s self)) name (word_of_int flags)) s
         in case check rc of
          Inl e \<Rightarrow> (Inl e, s1)
        | Inr _ \<Rightarrow>
        (let vdb = brk s1;
             s2 = (alloc s1)\<lparr>dbs := (dbs s1)(vdb :=
                    \<lparr>d_vtxn = RData self, d_transaction = self, dbi = d, d_open = 1\<rparr>)\<rparr>
         in (Inr (RData vdb), upd_txn self (\<lambda>t. t\<lparr>refcount := refcount t + 1\<rparr>) s2)))))))
     }"

text \<open>
  The two macros that open \<^verbatim>\<open>database_drop\<close> and \<^verbatim>\<open>database_clear\<close>:
  \<^verbatim>\<open>DATABASE(self, database)\<close>, then \<^verbatim>\<open>TRANSACTION(vtxn, transaction)\<close> on the argument.
\<close>

definition database_and_transaction :: "addr \<Rightarrow> VALUE \<Rightarrow> state \<Rightarrow> (error + addr) option" where
  "database_and_transaction self vtxn s =
     do {
       c \<leftarrow> database_check s self;
       (case c of
          Inl e \<Rightarrow> Some (Inl e)
        | Inr _ \<Rightarrow>
            (case Data_Get_Struct vtxn of
               Inl e \<Rightarrow> Some (Inl e)
             | Inr transaction \<Rightarrow>
                 do {
                   c' \<leftarrow> transaction_check s transaction;
                   Some (case c' of Inl e \<Rightarrow> Inl e | Inr _ \<Rightarrow> Inr transaction)
                 }))
     }"

text \<open>Lines 472-479. \<open>rc\<close> is the status of \<^verbatim>\<open>mdb_drop\<close>.\<close>

definition database_drop :: "addr \<Rightarrow> VALUE \<Rightarrow> int \<Rightarrow> state \<Rightarrow> VALUE result option" where
  "database_drop self vtxn rc s =
     do {
       c \<leftarrow> database_and_transaction self vtxn s;
       Some (case c of
          Inl e \<Rightarrow> (Inl e, s)
        | Inr transaction \<Rightarrow>
            (let s1 = mdb (Mdb_drop (txn (txns s transaction)) (dbi (dbs s self)) 1) s
             in case check rc of
                  Inl e \<Rightarrow> (Inl e, s1)
                | Inr _ \<Rightarrow> (Inr Qnil, upd_db self (\<lambda>d. d\<lparr>d_open := 0\<rparr>) s1)))
     }"

text \<open>Lines 481-487.\<close>

definition database_clear :: "addr \<Rightarrow> VALUE \<Rightarrow> int \<Rightarrow> state \<Rightarrow> VALUE result option" where
  "database_clear self vtxn rc s =
     do {
       c \<leftarrow> database_and_transaction self vtxn s;
       Some (case c of
          Inl e \<Rightarrow> (Inl e, s)
        | Inr transaction \<Rightarrow>
            (let s1 = mdb (Mdb_drop (txn (txns s transaction)) (dbi (dbs s self)) 0) s
             in case check rc of
                  Inl e \<Rightarrow> (Inl e, s1)
                | Inr _ \<Rightarrow> (Inr Qnil, s1)))
     }"

section \<open>Ancestor chains\<close>

text \<open>
  The ancestor chain of a transaction as a list of addresses, itself first: the heaps the
  constructors build have one for every transaction.
\<close>

fun chain :: "state \<Rightarrow> addr option \<Rightarrow> addr list \<Rightarrow> bool" where
  "chain s p [] = (p = None)"
| "chain s p (a # as) = (p = Some a \<and> chain s (parent (txns s a)) as)"

section \<open>Example heaps\<close>

text \<open>
  The heap before anything is allocated; then an open Environment at address 0 with a
  root Transaction at address 2 (\<open>root_heap\<close>), the same after the Environment was
  closed (\<open>closed_heap\<close>), with a child Transaction at address 3 (\<open>nested_heap\<close>),
  with that child after its parent was committed (\<open>orphan_heap\<close>), and the root
  Transaction alone after it was committed (\<open>done_heap\<close>).
\<close>

definition heap0 :: state where
  "heap0 =
     \<lparr>envs = (\<lambda>_. \<lparr>env = None, e_refcount = 0\<rparr>),
      txns = (\<lambda>_. \<lparr>venv = Qnil, environment = 0, vparent = Qnil, parent = None,
                    refcount = 0, txn = None\<rparr>),
      dbs = (\<lambda>_. \<lparr>d_vtxn = Qnil, d_transaction = 0, dbi = 0, d_open = 0\<rparr>),
      curs = (\<lambda>_. \<lparr>c_vtxn = Qnil, c_transaction = 0, cur = None\<rparr>),
      stat_structs = (\<lambda>_. \<lparr>ms_psize = 0, ms_depth = 0, ms_branch_pages = 0,
                            ms_leaf_pages = 0, ms_overflow_pages = 0, ms_entries = 0\<rparr>),
      info_structs = (\<lambda>_. \<lparr>me_mapaddr = 0, me_mapsize = 0, me_last_pgno = 0,
                            me_last_txnid = 0, me_maxreaders = 0, me_numreaders = 0\<rparr>),
      brk = 0, freed = [], calls = []\<rparr>"

definition root_heap :: state where
  "root_heap =
     heap0\<lparr>envs := (envs heap0)(0 := \<lparr>env = Some 100, e_refcount = 2\<rparr>),
            txns := (txns heap0)(2 := \<lparr>venv = RData 0, environment = 0, vparent = Qnil,
                                       parent = None, refcount = 1, txn = Some 7\<rparr>),
            brk := 3\<rparr>"

definition closed_heap :: state where
  "closed_heap = upd_env 0 (\<lambda>e. e\<lparr>env := None\<rparr>) root_heap"

definition nested_heap :: state where
  "nested_heap =
     root_heap\<lparr>envs := (envs root_heap)(0 := \<lparr>env = Some 100, e_refcount = 3\<rparr>),
                txns := (txns root_heap)(3 := \<lparr>venv = RData 0, environment = 0,
                                           vparent = RData 2, parent = Some 2, refcount = 1,
                                           txn = Some 8\<rparr>),
                brk := 4\<rparr>"

definition orphan_heap :: state where
  "orphan_heap = upd_txn 2 (\<lambda>t. t\<lparr>txn := None\<rparr>) nested_heap"

definition done_heap :: state where
  "done_heap = upd_txn 2 (\<lambda>t. t\<lparr>txn := None\<rparr>) root_heap"

text \<open>\<open>root_heap\<close> with a Database at address 3, opened in the root Transaction.\<close>

definition db_heap :: state where
  "db_heap =
     root_heap\<lparr>txns := (txns root_heap)(2 := (txns root_heap 2)\<lparr>refcount := 2\<rparr>),
              dbs := (dbs root_heap)(3 := \<lparr>d_vtxn = RData 2, d_transaction = 2, dbi = 5,
                                         d_open = 1\<rparr>),
              brk := 4\<rparr>"

text \<open>An engine that answers every call of \<^verbatim>\<open>environment_open\<close> with status 0.\<close>

definition all_ok :: open_replies where
  "all_ok = \<lparr>rc_create = 0, new_env = 100, rc_maxreaders = 0, rc_mapsize = 0, rc_maxdbs = 0,
             rc_open = 0\<rparr>"




text \<open>An engine that answers every call of \<^verbatim>\<open>flags=\<close> with status 0 and no flags.\<close>

definition no_replies :: set_flags_replies where
  "no_replies =
     \<lparr>rc_get = 0, oldflags = 0, rc_clear = 0, rc_set = 0, rc_get2 = 0, newflags = 0\<rparr>"

section \<open>Properties\<close>

lemmas ex_defs = heap0_def root_heap_def closed_heap_def nested_heap_def orphan_heap_def
  done_heap_def db_heap_def
  upd_env_def upd_txn_def upd_db_def mdb_def free_def alloc_def

subsection \<open>The validity chain\<close>

lemma transaction_active_chain:
  "chain s p as \<Longrightarrow> transaction_active s p = Some (\<forall>a\<in>set as. txn (txns s a) \<noteq> None)"
proof (induction as arbitrary: p)
  case Nil
  then show ?case by (simp add: transaction_active.simps)
next
  case (Cons a as)
  then show ?case by (subst transaction_active.simps) auto
qed

lemma chain_txns_cong: "txns s' = txns s \<Longrightarrow> chain s' p as = chain s p as"
  by (induction as arbitrary: p) auto

lemma transaction_check_chain:
  "chain s (Some a) as \<Longrightarrow>
   transaction_check s a =
     Some (if \<forall>x\<in>set as. txn (txns s x) \<noteq> None then Inr ()
           else Inl (Error ''Transaction is terminated''))"
  by (simp add: transaction_check_def transaction_active_chain)

text \<open>
  C1 (as amended). For a Transaction with an ancestor chain, the activity check returns,
  and returns true iff the Transaction's own handle is non-null and the check of its
  parent returns true; for a root Transaction (no parent) it is true iff the own handle
  is non-null. \<^verbatim>\<open>transaction_check\<close> raises exactly when it is false. The Environment is
  not looked at: the result is the same for any contents \<open>E\<close> of the Environment
  structs.
\<close>

theorem transaction_active_iff:
  assumes "chain s (Some a) as"
  shows "\<exists>b. transaction_active s (Some a) = Some b
      \<and> (b \<longleftrightarrow> txn (txns s a) \<noteq> None \<and> transaction_active s (parent (txns s a)) = Some True)
      \<and> (parent (txns s a) = None \<longrightarrow> (b \<longleftrightarrow> txn (txns s a) \<noteq> None))
      \<and> transaction_check s a = Some (if b then Inr () else Inl (Error ''Transaction is terminated''))
      \<and> transaction_active (s\<lparr>envs := E\<rparr>) (Some a) = Some b"
proof -
  obtain bs where as: "as = a # bs" and rest: "chain s (parent (txns s a)) bs"
    using assms by (cases as) auto
  let ?b = "\<forall>x\<in>set as. txn (txns s x) \<noteq> None"
  have act: "transaction_active s (Some a) = Some ?b"
    using assms by (rule transaction_active_chain)
  have par: "transaction_active s (parent (txns s a)) = Some (\<forall>x\<in>set bs. txn (txns s x) \<noteq> None)"
    using rest by (rule transaction_active_chain)
  have root: "parent (txns s a) = None \<Longrightarrow> bs = []"
    using rest by (cases bs) auto
  have "chain (s\<lparr>envs := E\<rparr>) (Some a) as"
    using assms chain_txns_cong [of "s\<lparr>envs := E\<rparr>" s "Some a" as] by simp
  then have envfree: "transaction_active (s\<lparr>envs := E\<rparr>) (Some a) = Some ?b"
    by (simp add: transaction_active_chain)
  have c: "transaction_check s a = Some (if ?b then Inr () else Inl (Error ''Transaction is terminated''))"
    using transaction_check_chain [OF assms] by simp
  have step: "?b \<longleftrightarrow> txn (txns s a) \<noteq> None \<and> transaction_active s (parent (txns s a)) = Some True"
    unfolding par as by simp
  have rootcase: "parent (txns s a) = None \<longrightarrow> (?b \<longleftrightarrow> txn (txns s a) \<noteq> None)"
    using root unfolding as by simp
  show ?thesis
    by (rule exI [of _ ?b]) (intro conjI act step rootcase c envfree)
qed

theorem transaction_active_iff_witness:
  "chain nested_heap (Some 3) [3, 2]
   \<and> transaction_active nested_heap (Some 2) = Some True
   \<and> transaction_active nested_heap (Some 3) = Some True
   \<and> transaction_check nested_heap 3 = Some (Inr ())
   \<and> transaction_active (nested_heap\<lparr>envs := envs heap0\<rparr>) (Some 3) = Some True
   \<and> chain orphan_heap (Some 3) [3, 2]
   \<and> txn (txns orphan_heap 3) = Some 8
   \<and> transaction_active orphan_heap (Some 2) = Some False
   \<and> transaction_active orphan_heap (Some 3) = Some False
   \<and> transaction_check orphan_heap 3 = Some (Inl (Error ''Transaction is terminated''))"
proof -
  have c: "chain nested_heap (Some 3) [3, 2]" "chain nested_heap (Some 2) [2]"
    and c': "chain orphan_heap (Some 3) [3, 2]" "chain orphan_heap (Some 2) [2]"
    by (simp_all add: ex_defs)
  have v: "txn (txns nested_heap 3) = Some 8" "txn (txns nested_heap 2) = Some 7"
    "parent (txns nested_heap 3) = Some 2" "parent (txns nested_heap 2) = None"
    and v': "txn (txns orphan_heap 3) = Some 8" "txn (txns orphan_heap 2) = None"
    "parent (txns orphan_heap 3) = Some 2" "parent (txns orphan_heap 2) = None"
    by (simp_all add: ex_defs)
  from transaction_active_iff [OF c(2), of "envs heap0"] have r: "transaction_active nested_heap (Some 2) = Some True"
    by (auto simp: v)
  from transaction_active_iff [OF c(1), of "envs heap0"] r
  have n: "transaction_active nested_heap (Some 3) = Some True"
    "transaction_check nested_heap 3 = Some (Inr ())"
    "transaction_active (nested_heap\<lparr>envs := envs heap0\<rparr>) (Some 3) = Some True"
    by (auto simp: v)
  from transaction_active_iff [OF c'(2), of "envs heap0"] have r': "transaction_active orphan_heap (Some 2) = Some False"
    by (auto simp: v')
  from transaction_active_iff [OF c'(1), of "envs heap0"] r'
  have n': "transaction_active orphan_heap (Some 3) = Some False"
    "transaction_check orphan_heap 3 = Some (Inl (Error ''Transaction is terminated''))"
    by (auto simp: v')
  show ?thesis
    by (intro conjI c c' v' r n r' n')
qed

text \<open>
  C1 as stated fails: in \<open>closed_heap\<close> the Environment of the root Transaction at
  address 2 is closed, yet the activity check returns true and \<^verbatim>\<open>commit\<close> goes on to the
  engine and returns \<open>nil\<close>.
\<close>

theorem closed_environment_counterexample:
  "env (envs closed_heap (environment (txns closed_heap 2))) = None
   \<and> parent (txns closed_heap 2) = None
   \<and> transaction_active closed_heap (Some 2) = Some True
   \<and> map_option fst (transaction_commit 2 closed_heap) = Some (Inr Qnil)"
proof -
  have c: "chain closed_heap (Some 2) [2]"
    by (simp add: ex_defs)
  have a: "transaction_active closed_heap (Some 2) = Some True"
    using transaction_active_chain [OF c] by (simp add: ex_defs)
  have e: "env (envs closed_heap (environment (txns closed_heap 2))) = None"
    by (simp add: ex_defs)
  have p: "parent (txns closed_heap 2) = None"
    by (simp add: ex_defs)
  have m: "map_option fst (transaction_commit 2 closed_heap) = Some (Inr Qnil)"
    by (simp add: transaction_commit_def transaction_check_def a)
  show ?thesis
    by (intro conjI e p a m)
qed

subsection \<open>Operations of a Transaction\<close>

lemma terminated_check:
  assumes "chain s (Some a) as" and "\<exists>x\<in>set as. txn (txns s x) = None"
  shows "transaction_check s a = Some (Inl (Error ''Transaction is terminated''))"
  using transaction_check_chain [OF assms(1)] assms(2) by auto

lemma active_check:
  assumes "chain s (Some a) as" and "\<forall>x\<in>set as. txn (txns s x) \<noteq> None"
  shows "transaction_check s a = Some (Inr ())"
  using transaction_check_chain [OF assms(1)] assms(2) by auto

text \<open>
  C4 (as amended). Every Transaction operation, \<^verbatim>\<open>environment\<close> and \<^verbatim>\<open>parent\<close> included,
  first checks the validity chain and raises the terminated-transaction error when the
  chain is not active, whatever its arguments and the engine's answers, leaving the heap
  as it was.
\<close>

theorem transaction_operations_check_first:
  assumes "chain s (Some a) as" and "\<exists>x\<in>set as. txn (txns s x) = None"
  shows "transaction_abort a s = Some (Inl (Error ''Transaction is terminated''), s)
    \<and> transaction_commit a s = Some (Inl (Error ''Transaction is terminated''), s)
    \<and> transaction_reset a s = Some (Inl (Error ''Transaction is terminated''), s)
    \<and> transaction_renew a s = Some (Inl (Error ''Transaction is terminated''), s)
    \<and> transaction_transaction a blk e rc h s = Some (Inl (Error ''Transaction is terminated''), s)
    \<and> database_open argv a rc d s = Some (Inl (Error ''Transaction is terminated''), s)
    \<and> transaction_environment a s = Some (Inl (Error ''Transaction is terminated''), s)
    \<and> transaction_parent a s = Some (Inl (Error ''Transaction is terminated''), s)"
  by (simp add: terminated_check [OF assms] transaction_abort_def transaction_commit_def
      transaction_reset_def transaction_renew_def transaction_transaction_def database_open_def
      transaction_environment_def transaction_parent_def)

theorem transaction_operations_check_first_witness:
  "chain orphan_heap (Some 3) [3, 2]
   \<and> (\<exists>x\<in>set [3, 2]. txn (txns orphan_heap x) = None)
   \<and> transaction_abort 3 orphan_heap = Some (Inl (Error ''Transaction is terminated''), orphan_heap)
   \<and> transaction_commit 3 orphan_heap = Some (Inl (Error ''Transaction is terminated''), orphan_heap)
   \<and> transaction_reset 3 orphan_heap = Some (Inl (Error ''Transaction is terminated''), orphan_heap)
   \<and> transaction_renew 3 orphan_heap = Some (Inl (Error ''Transaction is terminated''), orphan_heap)
   \<and> transaction_transaction 3 None (Some 100) 0 9 orphan_heap
       = Some (Inl (Error ''Transaction is terminated''), orphan_heap)
   \<and> database_open [RString ''db''] 3 0 1 orphan_heap
       = Some (Inl (Error ''Transaction is terminated''), orphan_heap)
   \<and> transaction_environment 3 orphan_heap
       = Some (Inl (Error ''Transaction is terminated''), orphan_heap)
   \<and> transaction_parent 3 orphan_heap
       = Some (Inl (Error ''Transaction is terminated''), orphan_heap)"
proof -
  have c: "chain orphan_heap (Some 3) [3, 2]"
    by (simp add: ex_defs)
  have t: "\<exists>x\<in>set [3, 2]. txn (txns orphan_heap x) = None"
    by (simp add: ex_defs)
  show ?thesis
    using c t transaction_operations_check_first [OF c t, where blk = None and e = "Some 100"
        and rc = 0 and h = 9 and argv = "[RString ''db'']" and d = 1]
    by blast
qed

text \<open>
  C4 as stated fails: \<^verbatim>\<open>environment\<close> and \<^verbatim>\<open>parent\<close> open with the same macro
  \<^verbatim>\<open>TRANSACTION\<close> (lines 343 and 348); on the committed root Transaction of
  \<open>done_heap\<close> they raise.
\<close>

theorem terminated_environment_parent_counterexample:
  "transaction_active done_heap (Some 2) = Some False
   \<and> transaction_environment 2 done_heap
       = Some (Inl (Error ''Transaction is terminated''), done_heap)
   \<and> transaction_parent 2 done_heap
       = Some (Inl (Error ''Transaction is terminated''), done_heap)"
proof -
  have c: "chain done_heap (Some 2) [2]"
    by (simp add: ex_defs)
  have a: "transaction_active done_heap (Some 2) = Some False"
    using transaction_active_chain [OF c] by (simp add: ex_defs)
  show ?thesis
    by (simp add: a transaction_environment_def transaction_parent_def transaction_check_def)
qed

text \<open>
  C5. On an active Transaction \<^verbatim>\<open>commit\<close> and \<^verbatim>\<open>abort\<close> return \<open>nil\<close>; the heap
  afterwards is the heap before with the \<^verbatim>\<open>txn\<close> field of this Transaction null and
  nothing else changed (every other field and struct, of whatever type, is as before);
  the engine got the one call, on the handle the Transaction had. On a Transaction whose
  chain is terminated both raise the terminated error and leave the heap as it was.
\<close>

theorem commit_abort_frame:
  assumes "chain s (Some a) as"
  shows "((\<forall>x\<in>set as. txn (txns s x) \<noteq> None) \<longrightarrow>
           transaction_commit a s
             = Some (Inr Qnil, s\<lparr>txns := (txns s)(a := (txns s a)\<lparr>txn := None\<rparr>),
                                calls := calls s @ [Mdb_txn_commit (txn (txns s a))]\<rparr>)
         \<and> transaction_abort a s
             = Some (Inr Qnil, s\<lparr>txns := (txns s)(a := (txns s a)\<lparr>txn := None\<rparr>),
                                calls := calls s @ [Mdb_txn_abort (txn (txns s a))]\<rparr>))
    \<and> ((\<exists>x\<in>set as. txn (txns s x) = None) \<longrightarrow>
           transaction_commit a s = Some (Inl (Error ''Transaction is terminated''), s)
         \<and> transaction_abort a s = Some (Inl (Error ''Transaction is terminated''), s))"
proof (intro conjI impI)
  assume act: "\<forall>x\<in>set as. txn (txns s x) \<noteq> None"
  show "transaction_commit a s
          = Some (Inr Qnil, s\<lparr>txns := (txns s)(a := (txns s a)\<lparr>txn := None\<rparr>),
                             calls := calls s @ [Mdb_txn_commit (txn (txns s a))]\<rparr>)"
    by (simp add: active_check [OF assms act] transaction_commit_def upd_txn_def mdb_def)
  show "transaction_abort a s
          = Some (Inr Qnil, s\<lparr>txns := (txns s)(a := (txns s a)\<lparr>txn := None\<rparr>),
                             calls := calls s @ [Mdb_txn_abort (txn (txns s a))]\<rparr>)"
    by (simp add: active_check [OF assms act] transaction_abort_def upd_txn_def mdb_def)
next
  assume t: "\<exists>x\<in>set as. txn (txns s x) = None"
  show "transaction_commit a s = Some (Inl (Error ''Transaction is terminated''), s)"
    by (simp add: terminated_check [OF assms t] transaction_commit_def)
  show "transaction_abort a s = Some (Inl (Error ''Transaction is terminated''), s)"
    by (simp add: terminated_check [OF assms t] transaction_abort_def)
qed

theorem commit_abort_frame_witness:
  "chain nested_heap (Some 3) [3, 2]
   \<and> txn (txns nested_heap 3) \<noteq> None \<and> txn (txns nested_heap 2) \<noteq> None
   \<and> transaction_commit 3 nested_heap
       = Some (Inr Qnil, nested_heap\<lparr>txns := (txns nested_heap)(3 := (txns nested_heap 3)\<lparr>txn := None\<rparr>),
                                     calls := calls nested_heap @ [Mdb_txn_commit (Some 8)]\<rparr>)
   \<and> transaction_abort 3 nested_heap
       = Some (Inr Qnil, nested_heap\<lparr>txns := (txns nested_heap)(3 := (txns nested_heap 3)\<lparr>txn := None\<rparr>),
                                     calls := calls nested_heap @ [Mdb_txn_abort (Some 8)]\<rparr>)
   \<and> chain orphan_heap (Some 3) [3, 2]
   \<and> txn (txns orphan_heap 2) = None
   \<and> transaction_commit 3 orphan_heap = Some (Inl (Error ''Transaction is terminated''), orphan_heap)
   \<and> transaction_abort 3 orphan_heap = Some (Inl (Error ''Transaction is terminated''), orphan_heap)"
proof -
  have c: "chain nested_heap (Some 3) [3, 2]"
    by (simp add: ex_defs)
  have h: "txn (txns nested_heap 3) = Some 8" "txn (txns nested_heap 2) = Some 7"
    by (simp_all add: ex_defs)
  have c': "chain orphan_heap (Some 3) [3, 2]"
    by (simp add: ex_defs)
  have h': "txn (txns orphan_heap 2) = None"
    by (simp add: ex_defs)
  show ?thesis
    using c h c' h' commit_abort_frame [OF c] commit_abort_frame [OF c'] by simp
qed


subsection \<open>Operations of an Environment\<close>

text \<open>
  Closing an Environment. \<^verbatim>\<open>close\<close> on an open Environment returns \<open>nil\<close> and leaves
  the heap with the handle of this Environment null, its reference count and everything
  else as before; a second \<^verbatim>\<open>close\<close> raises the closed error. With a null handle the
  methods of the Environment raise the closed error and leave the heap as it was,
  whatever their arguments and the engine's answers; of \<^verbatim>\<open>flags=\<close> this holds for an
  argument that \<^verbatim>\<open>NUM2INT\<close> converts.
\<close>

lemma environment_close_terminal:
  "(env (envs s a) \<noteq> None \<longrightarrow>
      environment_close a s
        = (Inr Qnil, s\<lparr>envs := (envs s)(a := (envs s a)\<lparr>env := None\<rparr>),
                       calls := calls s @ [Mdb_env_close (env (envs s a))]\<rparr>)
      \<and> fst (environment_close a (snd (environment_close a s)))
        = Inl (Error ''Environment is closed''))
   \<and> (env (envs s a) = None \<longrightarrow>
      environment_close a s = (Inl (Error ''Environment is closed''), s)
      \<and> environment_stat a rc st s = (Inl (Error ''Environment is closed''), s)
      \<and> environment_info a rc info s = (Inl (Error ''Environment is closed''), s)
      \<and> environment_copy a path rc s = (Inl (Error ''Environment is closed''), s)
      \<and> environment_sync argv a rc s = (Inl (Error ''Environment is closed''), s)
      \<and> environment_flags a rc fl s = (Inl (Error ''Environment is closed''), s)
      \<and> environment_path a rc p s = (Inl (Error ''Environment is closed''), s)
      \<and> environment_transaction argv a blk rc h s
          = Some (Inl (Error ''Environment is closed''), s)
      \<and> (NUM2INT vflags = Inr i \<longrightarrow>
          environment_set_flags a vflags r s = (Inl (Error ''Environment is closed''), s)))"
proof (intro conjI impI)
  assume o: "env (envs s a) \<noteq> None"
  show "environment_close a s
        = (Inr Qnil, s\<lparr>envs := (envs s)(a := (envs s a)\<lparr>env := None\<rparr>),
                       calls := calls s @ [Mdb_env_close (env (envs s a))]\<rparr>)"
    using o by (simp add: environment_close_def environment_check_def upd_env_def mdb_def)
  then show "fst (environment_close a (snd (environment_close a s)))
        = Inl (Error ''Environment is closed'')"
    by (simp add: environment_close_def environment_check_def)
next
  assume c: "env (envs s a) = None"
  then have chk: "environment_check s a = Inl (Error ''Environment is closed'')"
    by (simp add: environment_check_def)
  show "environment_close a s = (Inl (Error ''Environment is closed''), s)"
    by (simp add: environment_close_def chk)
  show "environment_stat a rc st s = (Inl (Error ''Environment is closed''), s)"
    by (simp add: environment_stat_def chk)
  show "environment_info a rc info s = (Inl (Error ''Environment is closed''), s)"
    by (simp add: environment_info_def chk)
  show "environment_copy a path rc s = (Inl (Error ''Environment is closed''), s)"
    by (simp add: environment_copy_def chk)
  show "environment_sync argv a rc s = (Inl (Error ''Environment is closed''), s)"
    by (simp add: environment_sync_def chk)
  show "environment_flags a rc fl s = (Inl (Error ''Environment is closed''), s)"
    by (simp add: environment_flags_def chk)
  show "environment_path a rc p s = (Inl (Error ''Environment is closed''), s)"
    by (simp add: environment_path_def chk)
  show "environment_transaction argv a blk rc h s
          = Some (Inl (Error ''Environment is closed''), s)"
    by (simp add: environment_transaction_def chk)
  show "environment_set_flags a vflags r s = (Inl (Error ''Environment is closed''), s)"
    if "NUM2INT vflags = Inr i"
    using that by (simp add: environment_set_flags_def chk)
qed

lemma environment_close_terminal_example:
  "env (envs root_heap 0) \<noteq> None
   \<and> environment_close 0 root_heap
        = (Inr Qnil, root_heap\<lparr>envs := (envs root_heap)(0 := (envs root_heap 0)\<lparr>env := None\<rparr>),
                       calls := calls root_heap @ [Mdb_env_close (Some 100)]\<rparr>)
   \<and> fst (environment_close 0 (snd (environment_close 0 root_heap)))
        = Inl (Error ''Environment is closed'')
   \<and> env (envs closed_heap 0) = None
   \<and> environment_stat 0 0 (stat_structs heap0 0) closed_heap
        = (Inl (Error ''Environment is closed''), closed_heap)
   \<and> environment_transaction [] 0 None 0 9 closed_heap
        = Some (Inl (Error ''Environment is closed''), closed_heap)
   \<and> NUM2INT (RInteger 65536) = Inr 65536
   \<and> environment_set_flags 0 (RInteger 65536)
          \<lparr>rc_get = 0, oldflags = 0, rc_clear = 0, rc_set = 0, rc_get2 = 0, newflags = 0\<rparr>
          closed_heap
        = (Inl (Error ''Environment is closed''), closed_heap)"
proof -
  have o: "env (envs root_heap 0) = Some 100"
    by (simp add: ex_defs)
  have c: "env (envs closed_heap 0) = None"
    by (simp add: ex_defs)
  have n: "NUM2INT (RInteger 65536) = Inr 65536"
    by simp
  have o': "env (envs root_heap 0) \<noteq> None"
    using o by simp
  note t1 = environment_close_terminal [of root_heap 0, THEN conjunct1, rule_format, OF o',
      unfolded o]
  note t2 = environment_close_terminal [of closed_heap 0 0 "stat_structs heap0 0" _ _ "[]" _ _
      None 9 "RInteger 65536" 65536, THEN conjunct2, rule_format, OF c]
  from t2 have t3: "environment_set_flags 0 (RInteger 65536)
          \<lparr>rc_get = 0, oldflags = 0, rc_clear = 0, rc_set = 0, rc_get2 = 0, newflags = 0\<rparr>
          closed_heap
        = (Inl (Error ''Environment is closed''), closed_heap)"
    using n by blast
  from t1 t2 t3 o' c n show ?thesis
    by blast
qed

text \<open>
  C7 fails on the code. Every Environment method is to raise the closed error when the
  handle is null, and the others do, \<^verbatim>\<open>copy\<close> and \<^verbatim>\<open>sync\<close> even for an argument or an
  argument count they would refuse. \<^verbatim>\<open>flags=\<close> converts its argument in its
  declarations (line 265), before the macro \<^verbatim>\<open>ENVIRONMENT\<close>: on the closed
  Environment of \<open>closed_heap\<close> it raises \<open>RangeError\<close> for the Integer \<open>2^31\<close> and
  \<open>TypeError\<close> for a String, not the closed error.
\<close>

theorem environment_set_flags_converts_first:
  "env (envs closed_heap 0) = None
   \<and> environment_set_flags 0 (RInteger 2147483648) no_replies closed_heap
       = (Inl RangeError, closed_heap)
   \<and> environment_set_flags 0 (RString ''x'') no_replies closed_heap
       = (Inl TypeError, closed_heap)
   \<and> environment_copy 0 (RInteger 5) 0 closed_heap
       = (Inl (Error ''Environment is closed''), closed_heap)
   \<and> environment_sync [Qtrue, Qtrue] 0 0 closed_heap
       = (Inl (Error ''Environment is closed''), closed_heap)"
proof -
  have c: "env (envs closed_heap 0) = None"
    by (simp add: ex_defs)
  then have chk: "environment_check closed_heap 0 = Inl (Error ''Environment is closed'')"
    by (simp add: environment_check_def)
  show ?thesis
    by (simp add: c chk environment_set_flags_def environment_copy_def environment_sync_def)
qed

text \<open>
  C10. On an open Environment \<^verbatim>\<open>sync\<close> without an argument, or with \<open>nil\<close> or
  \<open>false\<close>, calls \<^verbatim>\<open>mdb_env_sync\<close> with force 1, and with any other argument with
  force 0: the number given to the engine is the negation of what the caller asked for.
\<close>

theorem environment_sync_force:
  assumes "env (envs s a) \<noteq> None"
  shows "calls (snd (environment_sync [] a rc s))
           = calls s @ [Mdb_env_sync (env (envs s a)) 1]
    \<and> calls (snd (environment_sync [force] a rc s))
           = calls s @ [Mdb_env_sync (env (envs s a))
                          (if force = Qnil \<or> force = Qfalse then 1 else 0)]"
proof -
  from assms have chk: "environment_check s a = Inr ()"
    by (simp add: environment_check_def)
  show ?thesis
    by (simp add: environment_sync_def chk rb_scan_args_def arg_def RTEST_def mdb_def Let_def
        split: sum.split)
qed

theorem environment_sync_force_witness:
  "env (envs root_heap 0) \<noteq> None
   \<and> calls (snd (environment_sync [] 0 0 root_heap)) = [Mdb_env_sync (Some 100) 1]
   \<and> calls (snd (environment_sync [Qtrue] 0 0 root_heap)) = [Mdb_env_sync (Some 100) 0]
   \<and> calls (snd (environment_sync [Qfalse] 0 0 root_heap)) = [Mdb_env_sync (Some 100) 1]"
proof -
  have o: "env (envs root_heap 0) = Some 100" and k: "calls root_heap = []"
    by (simp_all add: ex_defs)
  have o': "env (envs root_heap 0) \<noteq> None"
    using o by simp
  show ?thesis
    using o k environment_sync_force [OF o', of 0 Qtrue] environment_sync_force [OF o', of 0 Qfalse]
    by simp
qed

subsection \<open>Opening a Database\<close>

text \<open>
  C6 fails on the code. \<^verbatim>\<open>rb_scan_args\<close> with the format \<^verbatim>\<open>"11"\<close> returns 1 or 2, and
  line 442 passes the caller's flags only when it returned 3: opening \<open>db\<close> with the
  flags \<open>0x40000\<close> in the root Transaction of \<open>root_heap\<close> succeeds and the engine
  is given the flags 0.
\<close>

theorem database_open_drops_flags:
  "map_option (\<lambda>r. (fst r, calls (snd r)))
     (database_open [RString ''db'', RInteger 0x40000] 2 0 5 root_heap)
   = Some (Inr (RData 3), [Mdb_dbi_open (Some 7) ''db'' 0])"
proof -
  have c: "chain root_heap (Some 2) [2]"
    by (simp add: ex_defs)
  have a: "\<forall>x\<in>set [2]. txn (txns root_heap x) \<noteq> None"
    by (simp add: ex_defs)
  have t: "txn (txns root_heap 2) = Some 7" and k: "calls root_heap = []" and b: "brk root_heap = 3"
    by (simp_all add: ex_defs)
  show ?thesis
    by (simp add: database_open_def active_check [OF c a] rb_scan_args_def arg_def check_def
        t k b mdb_def alloc_def upd_txn_def)
qed


subsection \<open>Dropping and clearing a Database\<close>

lemma usable_database:
  assumes "chain s (Some (d_transaction (dbs s self))) ds"
    and "\<forall>x\<in>set ds. txn (txns s x) \<noteq> None"
    and "d_open (dbs s self) \<noteq> 0"
    and "chain s (Some t) ts"
    and "\<forall>x\<in>set ts. txn (txns s x) \<noteq> None"
  shows "database_and_transaction self (RData t) s = Some (Inr t)"
  using assms(3)
  by (simp add: database_and_transaction_def database_check_def
      active_check [OF assms(1,2)] active_check [OF assms(4,5)])

text \<open>
  C8. For a usable Database (open flag set, its Transaction active) and an active
  Transaction argument, when the engine's \<^verbatim>\<open>mdb_drop\<close> succeeds: \<^verbatim>\<open>drop\<close> has called it
  with \<open>del = 1\<close> (remove the table) and leaves the heap with the open flag of this
  Database 0 and nothing else changed; \<^verbatim>\<open>clear\<close> has called it with \<open>del = 0\<close> (empty
  the table) and leaves the heap as it was, the open flag still set. When the engine
  refuses, \<^verbatim>\<open>drop\<close> raises and the open flag stays set.
\<close>

theorem drop_clear_open_flag:
  assumes "chain s (Some (d_transaction (dbs s self))) ds"
    and "\<forall>x\<in>set ds. txn (txns s x) \<noteq> None"
    and "d_open (dbs s self) \<noteq> 0"
    and "chain s (Some t) ts"
    and "\<forall>x\<in>set ts. txn (txns s x) \<noteq> None"
  shows "database_drop self (RData t) 0 s
           = Some (Inr Qnil,
                   s\<lparr>dbs := (dbs s)(self := (dbs s self)\<lparr>d_open := 0\<rparr>),
                     calls := calls s @ [Mdb_drop (txn (txns s t)) (dbi (dbs s self)) 1]\<rparr>)
    \<and> database_clear self (RData t) 0 s
           = Some (Inr Qnil,
                   s\<lparr>calls := calls s @ [Mdb_drop (txn (txns s t)) (dbi (dbs s self)) 0]\<rparr>)
    \<and> (rc \<noteq> 0 \<longrightarrow>
         database_drop self (RData t) rc s
           = Some (Inl (EngineError rc),
                   s\<lparr>calls := calls s @ [Mdb_drop (txn (txns s t)) (dbi (dbs s self)) 1]\<rparr>))"
  by (simp add: database_drop_def database_clear_def usable_database [OF assms] check_def
      mdb_def upd_db_def)

theorem drop_clear_open_flag_witness:
  "chain db_heap (Some (d_transaction (dbs db_heap 3))) [2]
   \<and> txn (txns db_heap 2) \<noteq> None
   \<and> d_open (dbs db_heap 3) \<noteq> 0
   \<and> database_drop 3 (RData 2) 0 db_heap
        = Some (Inr Qnil,
                db_heap\<lparr>dbs := (dbs db_heap)(3 := (dbs db_heap 3)\<lparr>d_open := 0\<rparr>),
                        calls := calls db_heap @ [Mdb_drop (Some 7) 5 1]\<rparr>)
   \<and> database_clear 3 (RData 2) 0 db_heap
        = Some (Inr Qnil, db_heap\<lparr>calls := calls db_heap @ [Mdb_drop (Some 7) 5 0]\<rparr>)
   \<and> database_drop 3 (RData 2) 13 db_heap
        = Some (Inl (EngineError 13),
                db_heap\<lparr>calls := calls db_heap @ [Mdb_drop (Some 7) 5 1]\<rparr>)"
proof -
  have c: "chain db_heap (Some (d_transaction (dbs db_heap 3))) [2]"
    and c': "chain db_heap (Some 2) [2]"
    by (simp_all add: ex_defs)
  have a: "\<forall>x\<in>set [2]. txn (txns db_heap x) \<noteq> None"
    by (simp add: ex_defs)
  have o: "d_open (dbs db_heap 3) \<noteq> 0"
    by (simp add: ex_defs)
  have v: "txn (txns db_heap 2) = Some 7" "dbi (dbs db_heap 3) = 5"
    by (simp_all add: ex_defs)
  show ?thesis
    using c a o drop_clear_open_flag [OF c a o c' a, of 13] by (simp add: v)
qed

subsection \<open>Opening an Environment\<close>

lemma read_option_int:
  "read_option kvs name NUM2INT d = Inr v \<Longrightarrow>
   v = (case map_of kvs name of Some (RInteger i) \<Rightarrow> i | _ \<Rightarrow> d)"
  by (auto simp: read_option_def rb_hash_aref_def NIL_P_def
      split: option.splits VALUE.splits if_splits)

lemma read_option_size:
  "read_option kvs name NUM2SIZET d = Inr v \<Longrightarrow>
   v = (case map_of kvs name of Some (RInteger i) \<Rightarrow> word_of_int i | _ \<Rightarrow> d)"
  by (auto simp: read_option_def rb_hash_aref_def NIL_P_def
      split: option.splits VALUE.splits if_splits)

lemma read_options_fields:
  assumes "read_options kvs = Inr opts"
  shows "o_flags opts = (case map_of kvs ''flags'' of Some (RInteger i) \<Rightarrow> i | _ \<Rightarrow> 0)
    \<and> o_maxreaders opts = (case map_of kvs ''maxreaders'' of Some (RInteger i) \<Rightarrow> i | _ \<Rightarrow> - 1)
    \<and> o_maxdbs opts = (case map_of kvs ''maxdbs'' of Some (RInteger i) \<Rightarrow> i | _ \<Rightarrow> 10)
    \<and> o_mapsize opts
        = (case map_of kvs ''mapsize'' of Some (RInteger i) \<Rightarrow> word_of_int i | _ \<Rightarrow> 0)"
proof -
  from assms obtain f m r d z where
    f: "read_option kvs ''flags'' NUM2INT (o_flags default_options) = Inr f" and
    r: "read_option kvs ''maxreaders'' NUM2INT (o_maxreaders default_options) = Inr r" and
    d: "read_option kvs ''maxdbs'' NUM2INT (o_maxdbs default_options) = Inr d" and
    z: "read_option kvs ''mapsize'' NUM2SIZET (o_mapsize default_options) = Inr z" and
    opts: "opts = \<lparr>o_flags = f, o_mode = m, o_maxreaders = r, o_maxdbs = d, o_mapsize = z\<rparr>"
    by (auto simp: read_options_def split: sum.splits)
  have dfl: "o_flags default_options = 0" "o_maxreaders default_options = - 1"
    "o_maxdbs default_options = 10" "o_mapsize default_options = 0"
    by (simp_all add: default_options_def)
  show ?thesis
    using read_option_int [OF f] read_option_int [OF r] read_option_int [OF d]
      read_option_size [OF z]
    unfolding dfl opts by simp
qed

lemma read_options_empty: "read_options [] = Inr default_options"
  by (simp add: read_options_def read_option_def rb_hash_aref_def NIL_P_def default_options_def)

lemma environment_setup_ok:
  assumes "rc_create r = 0" "rc_maxreaders r = 0" "rc_mapsize r = 0" "rc_maxdbs r = 0"
    "rc_open r = 0" and "StringValueCStr path = Inr p"
  shows "environment_setup path opts r s
    = (Inr (brk s),
       s\<lparr>envs := (envs s)(brk s := \<lparr>env = Some (new_env r), e_refcount = 1\<rparr>),
         brk := Suc (brk s),
         calls := calls s @ [Mdb_env_create]
           @ (if 0 < o_maxreaders opts
              then [Mdb_env_set_maxreaders (Some (new_env r)) (word_of_int (o_maxreaders opts))]
              else [])
           @ (if 0 < o_mapsize opts
              then [Mdb_env_set_mapsize (Some (new_env r)) (o_mapsize opts)]
              else [])
           @ [Mdb_env_set_maxdbs (Some (new_env r))
                (word_of_int (if o_maxdbs opts \<le> 0 then 1 else o_maxdbs opts)),
              Mdb_env_open (Some (new_env r)) p (word_of_int (o_flags opts)) (o_mode opts)]\<rparr>)"
  using assms
  by (simp add: environment_setup_def check_def mdb_def alloc_def Let_def)

text \<open>
  Opening an Environment, when every engine call succeeds and the path is a String.
  Without options \<^verbatim>\<open>open\<close> calls \<^verbatim>\<open>mdb_env_set_maxdbs\<close> with 10 and \<^verbatim>\<open>mdb_env_open\<close>
  with flags 0 (and mode 0755), and sets neither \<^verbatim>\<open>maxreaders\<close> nor \<^verbatim>\<open>mapsize\<close>. With
  options that convert, each variable is the converted Integer supplied under its name,
  or its default (flags 0, maxreaders -1, maxdbs 10, mapsize 0) when the option is absent
  or \<open>nil\<close>; \<^verbatim>\<open>mdb_env_set_maxreaders\<close> and \<^verbatim>\<open>mdb_env_set_mapsize\<close> are called only
  when the variable is greater than 0, and \<^verbatim>\<open>mdb_env_set_maxdbs\<close> gets 1 in place of a
  value that is not positive. The new Environment has reference count 1.
\<close>

lemma environment_open_defaults:
  assumes "rc_create r = 0" "rc_maxreaders r = 0" "rc_mapsize r = 0" "rc_maxdbs r = 0"
    "rc_open r = 0" and "StringValueCStr path = Inr p"
  shows "environment_open [path] None r s
      = Some (Inr (RData (brk s)),
          s\<lparr>envs := (envs s)(brk s := \<lparr>env = Some (new_env r), e_refcount = 1\<rparr>),
            brk := Suc (brk s),
            calls := calls s @ [Mdb_env_create, Mdb_env_set_maxdbs (Some (new_env r)) 10,
                                Mdb_env_open (Some (new_env r)) p 0 493]\<rparr>)
    \<and> (read_options kvs = Inr opts \<longrightarrow>
        o_flags opts = (case map_of kvs ''flags'' of Some (RInteger i) \<Rightarrow> i | _ \<Rightarrow> 0)
        \<and> o_maxreaders opts
            = (case map_of kvs ''maxreaders'' of Some (RInteger i) \<Rightarrow> i | _ \<Rightarrow> - 1)
        \<and> o_maxdbs opts = (case map_of kvs ''maxdbs'' of Some (RInteger i) \<Rightarrow> i | _ \<Rightarrow> 10)
        \<and> o_mapsize opts
            = (case map_of kvs ''mapsize'' of Some (RInteger i) \<Rightarrow> word_of_int i | _ \<Rightarrow> 0)
        \<and> environment_open [path, RHash kvs] None r s
          = Some (Inr (RData (brk s)),
              s\<lparr>envs := (envs s)(brk s := \<lparr>env = Some (new_env r), e_refcount = 1\<rparr>),
                brk := Suc (brk s),
                calls := calls s @ [Mdb_env_create]
                  @ (if 0 < o_maxreaders opts
                     then [Mdb_env_set_maxreaders (Some (new_env r))
                             (word_of_int (o_maxreaders opts))]
                     else [])
                  @ (if 0 < o_mapsize opts
                     then [Mdb_env_set_mapsize (Some (new_env r)) (o_mapsize opts)]
                     else [])
                  @ [Mdb_env_set_maxdbs (Some (new_env r))
                       (word_of_int (if o_maxdbs opts \<le> 0 then 1 else o_maxdbs opts)),
                     Mdb_env_open (Some (new_env r)) p (word_of_int (o_flags opts))
                       (o_mode opts)]\<rparr>))"
proof (intro conjI impI)
  show "environment_open [path] None r s
      = Some (Inr (RData (brk s)),
          s\<lparr>envs := (envs s)(brk s := \<lparr>env = Some (new_env r), e_refcount = 1\<rparr>),
            brk := Suc (brk s),
            calls := calls s @ [Mdb_env_create, Mdb_env_set_maxdbs (Some (new_env r)) 10,
                                Mdb_env_open (Some (new_env r)) p 0 493]\<rparr>)"
    by (simp add: environment_open_def rb_scan_args_def arg_def environment_setup_ok [OF assms])
      (simp add: default_options_def)
next
  assume ro: "read_options kvs = Inr opts"
  note f = read_options_fields [OF ro]
  show "o_flags opts = (case map_of kvs ''flags'' of Some (RInteger i) \<Rightarrow> i | _ \<Rightarrow> 0)"
    using f by blast
  show "o_maxreaders opts
      = (case map_of kvs ''maxreaders'' of Some (RInteger i) \<Rightarrow> i | _ \<Rightarrow> - 1)"
    using f by blast
  show "o_maxdbs opts = (case map_of kvs ''maxdbs'' of Some (RInteger i) \<Rightarrow> i | _ \<Rightarrow> 10)"
    using f by blast
  show "o_mapsize opts
      = (case map_of kvs ''mapsize'' of Some (RInteger i) \<Rightarrow> word_of_int i | _ \<Rightarrow> 0)"
    using f by blast
  show "environment_open [path, RHash kvs] None r s
          = Some (Inr (RData (brk s)),
              s\<lparr>envs := (envs s)(brk s := \<lparr>env = Some (new_env r), e_refcount = 1\<rparr>),
                brk := Suc (brk s),
                calls := calls s @ [Mdb_env_create]
                  @ (if 0 < o_maxreaders opts
                     then [Mdb_env_set_maxreaders (Some (new_env r))
                             (word_of_int (o_maxreaders opts))]
                     else [])
                  @ (if 0 < o_mapsize opts
                     then [Mdb_env_set_mapsize (Some (new_env r)) (o_mapsize opts)]
                     else [])
                  @ [Mdb_env_set_maxdbs (Some (new_env r))
                       (word_of_int (if o_maxdbs opts \<le> 0 then 1 else o_maxdbs opts)),
                     Mdb_env_open (Some (new_env r)) p (word_of_int (o_flags opts))
                       (o_mode opts)]\<rparr>)"
    by (simp add: environment_open_def rb_scan_args_def arg_def ro
        environment_setup_ok [OF assms])
qed

lemma environment_open_defaults_example:
  "StringValueCStr (RString ''/tmp/db'') = Inr ''/tmp/db''
   \<and> environment_open [RString ''/tmp/db''] None all_ok heap0
      = Some (Inr (RData 0),
          heap0\<lparr>envs := (envs heap0)(0 := \<lparr>env = Some 100, e_refcount = 1\<rparr>),
            brk := Suc 0,
            calls := [Mdb_env_create, Mdb_env_set_maxdbs (Some 100) 10,
                      Mdb_env_open (Some 100) ''/tmp/db'' 0 493]\<rparr>)
   \<and> read_options [(''maxdbs'', RInteger (- 3)), (''mapsize'', RInteger 4096)]
      = Inr \<lparr>o_flags = 0, o_mode = 493, o_maxreaders = - 1, o_maxdbs = - 3, o_mapsize = 4096\<rparr>
   \<and> environment_open
        [RString ''/tmp/db'', RHash [(''maxdbs'', RInteger (- 3)), (''mapsize'', RInteger 4096)]]
        None all_ok heap0
      = Some (Inr (RData 0),
          heap0\<lparr>envs := (envs heap0)(0 := \<lparr>env = Some 100, e_refcount = 1\<rparr>),
            brk := Suc 0,
            calls := [Mdb_env_create, Mdb_env_set_mapsize (Some 100) 4096,
                      Mdb_env_set_maxdbs (Some 100) 1,
                      Mdb_env_open (Some 100) ''/tmp/db'' 0 493]\<rparr>)"
proof -
  have rc: "rc_create all_ok = 0" "rc_maxreaders all_ok = 0" "rc_mapsize all_ok = 0"
    "rc_maxdbs all_ok = 0" "rc_open all_ok = 0" and h: "new_env all_ok = 100"
    by (simp_all add: all_ok_def)
  have p: "StringValueCStr (RString ''/tmp/db'') = Inr ''/tmp/db''"
    by simp
  have ro: "read_options [(''maxdbs'', RInteger (- 3)), (''mapsize'', RInteger 4096)]
      = Inr \<lparr>o_flags = 0, o_mode = 493, o_maxreaders = - 1, o_maxdbs = - 3, o_mapsize = 4096\<rparr>"
    by (simp add: read_options_def read_option_def rb_hash_aref_def NIL_P_def
        default_options_def)
  have s0: "brk heap0 = 0" "calls heap0 = []"
    by (simp_all add: heap0_def)
  note t = environment_open_defaults [OF rc p, of heap0
      "[(''maxdbs'', RInteger (- 3)), (''mapsize'', RInteger 4096)]"
      "\<lparr>o_flags = 0, o_mode = 493, o_maxreaders = - 1, o_maxdbs = - 3, o_mapsize = 4096\<rparr>"]
  show ?thesis
    using p ro t by (simp add: h s0)
qed


text \<open>
  C9 fails on the code. \<^verbatim>\<open>mapsize\<close> is to be applied only when a positive value is
  supplied. The variable is a \<^verbatim>\<open>size_t\<close> read with \<^verbatim>\<open>NUM2SIZET\<close>, so the supplied
  \<open>-1\<close> becomes \<open>2^64 - 1\<close>, passes the test \<^verbatim>\<open>mapsize > 0\<close> of line 239 and is handed
  to \<^verbatim>\<open>mdb_env_set_mapsize\<close>; \<^verbatim>\<open>maxreaders\<close>, an \<^verbatim>\<open>int\<close> read with \<^verbatim>\<open>NUM2INT\<close>, is
  left unset for the same \<open>-1\<close>.
\<close>

theorem environment_open_negative_mapsize:
  "map_option (\<lambda>r. (fst r, calls (snd r)))
     (environment_open
        [RString ''/tmp/db'',
         RHash [(''maxreaders'', RInteger (- 1)), (''mapsize'', RInteger (- 1))]]
        None all_ok heap0)
   = Some (Inr (RData 0),
           [Mdb_env_create,
            Mdb_env_set_mapsize (Some 100) 0xFFFFFFFFFFFFFFFF,
            Mdb_env_set_maxdbs (Some 100) 10,
            Mdb_env_open (Some 100) ''/tmp/db'' 0 493])"
proof -
  have rc: "rc_create all_ok = 0" "rc_maxreaders all_ok = 0" "rc_mapsize all_ok = 0"
    "rc_maxdbs all_ok = 0" "rc_open all_ok = 0" and h: "new_env all_ok = 100"
    by (simp_all add: all_ok_def)
  have p: "StringValueCStr (RString ''/tmp/db'') = Inr ''/tmp/db''"
    by simp
  have ro: "read_options [(''maxreaders'', RInteger (- 1)), (''mapsize'', RInteger (- 1))]
      = Inr \<lparr>o_flags = 0, o_mode = 493, o_maxreaders = - 1, o_maxdbs = 10, o_mapsize = - 1\<rparr>"
    by (simp add: read_options_def read_option_def rb_hash_aref_def NIL_P_def
        default_options_def)
  have s0: "brk heap0 = 0" "calls heap0 = []"
    by (simp_all add: heap0_def)
  have w: "(- 1 :: 64 word) = 0xFFFFFFFFFFFFFFFF" "(0 :: 64 word) < - 1"
    by (simp_all add: word_gt_0)
  show ?thesis
    by (simp add: environment_open_def rb_scan_args_def arg_def ro
        environment_setup_ok [OF rc p] h s0 w)
qed

subsection \<open>Scoped transactions\<close>








subsection \<open>Finalizing a Transaction\<close>

text \<open>An ancestor chain is determined by its first element and has no repetition.\<close>

lemma chain_unique: "chain s p as \<Longrightarrow> chain s p bs \<Longrightarrow> as = bs"
proof (induction as arbitrary: p bs)
  case Nil
  then show ?case by (cases bs) auto
next
  case (Cons a as)
  then show ?case by (cases bs) auto
qed

lemma chain_suffix: "chain s p (xs @ a # ys) \<Longrightarrow> chain s (Some a) (a # ys)"
  by (induction xs arbitrary: p) auto

lemma chain_not_in_tail:
  assumes "chain s (Some a) (a # as)"
  shows "a \<notin> set as"
proof
  assume "a \<in> set as"
  then obtain xs ys where as: "as = xs @ a # ys"
    by (auto simp: in_set_conv_decomp)
  with assms have "chain s (Some a) ((a # xs) @ a # ys)"
    by simp
  then have "chain s (Some a) (a # ys)"
    by (rule chain_suffix)
  with assms have "a # as = a # ys"
    by (rule chain_unique)
  with as show False
    by simp
qed

lemma chain_parents_cong:
  "(\<And>x. parent (txns s' x) = parent (txns s x)) \<Longrightarrow> chain s' p as = chain s p as"
  by (induction as arbitrary: p) auto

text \<open>What \<^verbatim>\<open>transaction_deref\<close> leaves alone, and its two cases.\<close>

lemma txns_frame [simp]:
  "txns (mdb c s) = txns s"
  "txns (free a s) = txns s"
  "txns (upd_env e f s) = txns s"
  "txns (environment_deref e s) = txns s"
  by (simp_all add: mdb_def free_def upd_env_def environment_deref_def Let_def)

lemma transaction_deref_keep:
  "refcount (txns s a) \<noteq> 1 \<Longrightarrow>
   transaction_deref a s = Some (upd_txn a (\<lambda>t. t\<lparr>refcount := refcount t - 1\<rparr>) s)"
  by (subst transaction_deref.simps) (simp add: upd_txn_def Let_def)

lemma upd_refcount_links [simp]:
  "parent (txns (upd_txn a (\<lambda>t. t\<lparr>refcount := f t\<rparr>) s) x) = parent (txns s x)"
  "environment (txns (upd_txn a (\<lambda>t. t\<lparr>refcount := f t\<rparr>) s) x) = environment (txns s x)"
  "txn (txns (upd_txn a (\<lambda>t. t\<lparr>refcount := f t\<rparr>) s) x) = txn (txns s x)"
  "refcount (txns (upd_txn a (\<lambda>t. t\<lparr>refcount := f t\<rparr>) s) x)
     = (if x = a then f (txns s a) else refcount (txns s x))"
  by (simp_all add: upd_txn_def)

lemma transaction_deref_last:
  assumes "refcount (txns s a) = 1" and "chain s (Some a) as"
  shows "transaction_deref a s =
     (let s1 = upd_txn a (\<lambda>t. t\<lparr>refcount := refcount t - 1\<rparr>) s;
          s2 = (if \<forall>x\<in>set as. txn (txns s x) \<noteq> None
                then mdb (Mdb_txn_abort (txn (txns s a))) s1 else s1)
      in case parent (txns s a) of
           Some p \<Rightarrow>
             Option.bind (transaction_deref p s2)
               (\<lambda>s3. Some (free a (environment_deref (environment (txns s3 a)) s3)))
         | None \<Rightarrow> Some (free a (environment_deref (environment (txns s a)) s2)))"
proof -
  let ?s1 = "upd_txn a (\<lambda>t. t\<lparr>refcount := refcount t - 1\<rparr>) s"
  have "chain ?s1 (Some a) as = chain s (Some a) as"
    by (rule chain_parents_cong) simp
  with assms(2) have "chain ?s1 (Some a) as"
    by simp
  then have "transaction_active ?s1 (Some a) = Some (\<forall>x\<in>set as. txn (txns ?s1 x) \<noteq> None)"
    by (rule transaction_active_chain)
  then have act: "transaction_active ?s1 (Some a) = Some (\<forall>x\<in>set as. txn (txns s x) \<noteq> None)"
    by simp
  show ?thesis
  proof (cases "\<forall>x\<in>set as. txn (txns s x) \<noteq> None")
    case True
    with act have "transaction_active ?s1 (Some a) = Some True"
      by simp
    with True show ?thesis
      by (subst transaction_deref.simps) (simp add: assms(1) Let_def split: option.split)
  next
    case False
    with act have "transaction_active ?s1 (Some a) = Some False"
      by simp
    with False show ?thesis
      by (subst transaction_deref.simps) (auto simp: assms(1) Let_def split: option.split)
  qed
qed

text \<open>
  On an ancestor chain \<^verbatim>\<open>transaction_deref\<close> returns; it changes no link, handle or
  Environment pointer, no reference count outside the chain, and lowers the count of the
  Transaction it is called on by one.
\<close>

lemma transaction_deref_chain:
  "chain s (Some a) (a # as) \<Longrightarrow>
   \<exists>s'. transaction_deref a s = Some s'
      \<and> (\<forall>x. parent (txns s' x) = parent (txns s x)
             \<and> environment (txns s' x) = environment (txns s x)
             \<and> txn (txns s' x) = txn (txns s x))
      \<and> (\<forall>x. x \<notin> set (a # as) \<longrightarrow> refcount (txns s' x) = refcount (txns s x))
      \<and> refcount (txns s' a) = refcount (txns s a) - 1"
proof (induction as arbitrary: a s)
  case Nil
  then have root: "parent (txns s a) = None"
    by simp
  show ?case
  proof (cases "refcount (txns s a) = 1")
    case True
    show ?thesis
      by (simp add: transaction_deref_last [OF True Nil] root Let_def)
  next
    case False
    then show ?thesis
      by (simp add: transaction_deref_keep)
  qed
next
  case (Cons p as)
  then have par: "parent (txns s a) = Some p" and up: "chain s (Some p) (p # as)"
    by simp_all
  have fresh: "a \<notin> set (p # as)"
    using Cons.prems by (rule chain_not_in_tail)
  show ?case
  proof (cases "refcount (txns s a) = 1")
    case False
    then show ?thesis
      by (simp add: transaction_deref_keep)
  next
    case True
    define s2 where "s2 =
      (if \<forall>x\<in>set (a # p # as). txn (txns s x) \<noteq> None
       then mdb (Mdb_txn_abort (txn (txns s a))) (upd_txn a (\<lambda>t. t\<lparr>refcount := refcount t - 1\<rparr>) s)
       else upd_txn a (\<lambda>t. t\<lparr>refcount := refcount t - 1\<rparr>) s)"
    have l2: "parent (txns s2 x) = parent (txns s x)"
      "environment (txns s2 x) = environment (txns s x)"
      "txn (txns s2 x) = txn (txns s x)"
      "refcount (txns s2 x) = (if x = a then refcount (txns s a) - 1 else refcount (txns s x))"
      for x
      by (simp_all add: s2_def)
    have "chain s2 (Some p) (p # as) = chain s (Some p) (p # as)"
      by (rule chain_parents_cong) (rule l2)
    with up have "chain s2 (Some p) (p # as)"
      by simp
    from Cons.IH [OF this] obtain s3 where
      d: "transaction_deref p s2 = Some s3" and
      links: "\<And>x. parent (txns s3 x) = parent (txns s2 x)
                  \<and> environment (txns s3 x) = environment (txns s2 x)
                  \<and> txn (txns s3 x) = txn (txns s2 x)" and
      rest: "\<And>x. x \<notin> set (p # as) \<Longrightarrow> refcount (txns s3 x) = refcount (txns s2 x)"
      by blast
    have "transaction_deref a s
        = Option.bind (transaction_deref p s2)
            (\<lambda>s3. Some (free a (environment_deref (environment (txns s3 a)) s3)))"
      unfolding s2_def
      by (simp add: transaction_deref_last [OF True Cons.prems] par Let_def)
    then have res: "transaction_deref a s
        = Some (free a (environment_deref (environment (txns s3 a)) s3))"
      by (simp add: d)
    have "parent (txns s3 x) = parent (txns s x)
              \<and> environment (txns s3 x) = environment (txns s x)
              \<and> txn (txns s3 x) = txn (txns s x)" for x
      using links [of x] by (simp add: l2)
    moreover have "x \<notin> set (a # p # as) \<Longrightarrow> refcount (txns s3 x) = refcount (txns s x)" for x
      using rest [of x] by (simp add: l2)
    moreover have "refcount (txns s3 a) = refcount (txns s a) - 1"
      using rest [OF fresh] by (simp add: l2)
    ultimately show ?thesis
      by (simp add: res)
  qed
qed

lemma environment_deref_refcount:
  "e_refcount (envs (environment_deref e s) e) = e_refcount (envs s e) - 1"
  by (simp add: environment_deref_def Let_def upd_env_def free_def mdb_def)

text \<open>
  C3 (as amended). \<^verbatim>\<open>transaction_deref\<close> on a Transaction with an ancestor chain returns.
  When the reference count does not reach zero, only the count changes. When it reaches
  zero the Transaction is finalized: an implicit abort is issued on its handle iff the
  Transaction is active, that is iff its own handle and the handle of every ancestor is
  non-null (\<open>s2\<close>); then the parent, if any, is dereferenced in turn, which lowers the
  parent's reference count by one (\<open>s3\<close>); then the Environment is dereferenced, which
  lowers its reference count by one, and the struct is freed.
\<close>

theorem transaction_deref_finalize:
  assumes "chain s (Some a) (a # as)"
  shows "(refcount (txns s a) \<noteq> 1 \<longrightarrow>
            transaction_deref a s = Some (upd_txn a (\<lambda>t. t\<lparr>refcount := refcount t - 1\<rparr>) s))
    \<and> (refcount (txns s a) = 1 \<longrightarrow>
         (\<exists>s3.
            (let s1 = upd_txn a (\<lambda>t. t\<lparr>refcount := refcount t - 1\<rparr>) s;
                 s2 = (if \<forall>x\<in>set (a # as). txn (txns s x) \<noteq> None
                       then mdb (Mdb_txn_abort (txn (txns s a))) s1 else s1)
             in case parent (txns s a) of
                  None \<Rightarrow> s3 = s2
                | Some p \<Rightarrow> transaction_deref p s2 = Some s3
                    \<and> refcount (txns s3 p) = refcount (txns s p) - 1)
            \<and> transaction_deref a s
                = Some (free a (environment_deref (environment (txns s a)) s3))
            \<and> e_refcount (envs (environment_deref (environment (txns s a)) s3)
                            (environment (txns s a)))
                = e_refcount (envs s3 (environment (txns s a))) - 1))"
proof (intro conjI impI)
  assume "refcount (txns s a) \<noteq> 1"
  then show "transaction_deref a s = Some (upd_txn a (\<lambda>t. t\<lparr>refcount := refcount t - 1\<rparr>) s)"
    by (rule transaction_deref_keep)
next
  assume last: "refcount (txns s a) = 1"
  define s2 where "s2 =
    (if \<forall>x\<in>set (a # as). txn (txns s x) \<noteq> None
     then mdb (Mdb_txn_abort (txn (txns s a))) (upd_txn a (\<lambda>t. t\<lparr>refcount := refcount t - 1\<rparr>) s)
     else upd_txn a (\<lambda>t. t\<lparr>refcount := refcount t - 1\<rparr>) s)"
  have l2: "parent (txns s2 x) = parent (txns s x)"
    "environment (txns s2 x) = environment (txns s x)"
    "refcount (txns s2 x) = (if x = a then refcount (txns s a) - 1 else refcount (txns s x))"
    for x
    by (simp_all add: s2_def)
  note unfold = transaction_deref_last [OF last assms, unfolded Let_def, folded s2_def]
  have "\<exists>s3. (case parent (txns s a) of
                 None \<Rightarrow> s3 = s2
               | Some p \<Rightarrow> transaction_deref p s2 = Some s3
                   \<and> refcount (txns s3 p) = refcount (txns s p) - 1)
            \<and> transaction_deref a s
                = Some (free a (environment_deref (environment (txns s a)) s3))"
  proof (cases as)
    case Nil
    with assms have "parent (txns s a) = None"
      by simp
    then show ?thesis
      using unfold by simp
  next
    case (Cons p ps)
    with assms have par: "parent (txns s a) = Some p" and up: "chain s (Some p) (p # ps)"
      by simp_all
    have "a \<notin> set as"
      using assms by (rule chain_not_in_tail)
    with Cons have neq: "p \<noteq> a"
      by auto
    have "chain s2 (Some p) (p # ps) = chain s (Some p) (p # ps)"
      by (rule chain_parents_cong) (rule l2)
    with up have "chain s2 (Some p) (p # ps)"
      by simp
    from transaction_deref_chain [OF this] obtain s3 where
      d: "transaction_deref p s2 = Some s3" and
      e: "environment (txns s3 a) = environment (txns s2 a)" and
      r: "refcount (txns s3 p) = refcount (txns s2 p) - 1"
      by blast
    from r neq have "refcount (txns s3 p) = refcount (txns s p) - 1"
      by (simp add: l2)
    moreover from unfold d e have "transaction_deref a s
        = Some (free a (environment_deref (environment (txns s a)) s3))"
      by (simp add: par l2)
    ultimately show ?thesis
      using d par by simp
  qed
  then show "\<exists>s3.
     (let s1 = upd_txn a (\<lambda>t. t\<lparr>refcount := refcount t - 1\<rparr>) s;
          s2 = (if \<forall>x\<in>set (a # as). txn (txns s x) \<noteq> None
                then mdb (Mdb_txn_abort (txn (txns s a))) s1 else s1)
      in case parent (txns s a) of
           None \<Rightarrow> s3 = s2
         | Some p \<Rightarrow> transaction_deref p s2 = Some s3
             \<and> refcount (txns s3 p) = refcount (txns s p) - 1)
     \<and> transaction_deref a s
         = Some (free a (environment_deref (environment (txns s a)) s3))
     \<and> e_refcount (envs (environment_deref (environment (txns s a)) s3)
                     (environment (txns s a)))
         = e_refcount (envs s3 (environment (txns s a))) - 1"
    unfolding Let_def s2_def [symmetric] environment_deref_refcount by blast
qed

lemmas deref_eval = transaction_deref_last [where as = "[3, 2]"]
  transaction_deref_last [where as = "[2]"]

theorem transaction_deref_finalize_witness:
  "chain nested_heap (Some 3) [3, 2]
   \<and> refcount (txns nested_heap 3) = 1
   \<and> txn (txns nested_heap 3) \<noteq> None \<and> txn (txns nested_heap 2) \<noteq> None
   \<and> (\<exists>s3. transaction_deref 2
              (mdb (Mdb_txn_abort (Some 8))
                 (upd_txn 3 (\<lambda>t. t\<lparr>refcount := refcount t - 1\<rparr>) nested_heap)) = Some s3
          \<and> refcount (txns s3 2) = 0
          \<and> transaction_deref 3 nested_heap = Some (free 3 (environment_deref 0 s3))
          \<and> e_refcount (envs (environment_deref 0 s3) 0) = e_refcount (envs s3 0) - 1)
   \<and> map_option calls (transaction_deref 3 nested_heap)
       = Some [Mdb_txn_abort (Some 8), Mdb_txn_abort (Some 7)]
   \<and> map_option freed (transaction_deref 3 nested_heap) = Some [2, 3]
   \<and> map_option (\<lambda>s. e_refcount (envs s 0)) (transaction_deref 3 nested_heap) = Some 1"
proof -
  have c: "chain nested_heap (Some 3) [3, 2]"
    by (simp add: ex_defs)
  have v: "refcount (txns nested_heap 3) = 1" "txn (txns nested_heap 3) = Some 8"
    "txn (txns nested_heap 2) = Some 7" "parent (txns nested_heap 3) = Some 2"
    "environment (txns nested_heap 3) = 0" "refcount (txns nested_heap 2) = 1"
    by (simp_all add: ex_defs)
  have t: "\<exists>s3. transaction_deref 2
              (mdb (Mdb_txn_abort (Some 8))
                 (upd_txn 3 (\<lambda>t. t\<lparr>refcount := refcount t - 1\<rparr>) nested_heap)) = Some s3
          \<and> refcount (txns s3 2) = 0
          \<and> transaction_deref 3 nested_heap = Some (free 3 (environment_deref 0 s3))
          \<and> e_refcount (envs (environment_deref 0 s3) 0) = e_refcount (envs s3 0) - 1"
    using transaction_deref_finalize [OF c] by (simp add: v)
  have e: "map_option calls (transaction_deref 3 nested_heap)
       = Some [Mdb_txn_abort (Some 8), Mdb_txn_abort (Some 7)]"
    "map_option freed (transaction_deref 3 nested_heap) = Some [2, 3]"
    "map_option (\<lambda>s. e_refcount (envs s 0)) (transaction_deref 3 nested_heap) = Some 1"
    by (simp_all add: deref_eval ex_defs environment_deref_def Let_def)
  from c v t e show ?thesis
    by simp
qed

text \<open>
  C3 as stated fails: in \<open>orphan_heap\<close> the child Transaction at address 3 has a non-null
  handle and reference count 1, its parent was committed; finalizing the child issues no
  abort (no engine call at all), and frees parent and child.
\<close>

theorem inactive_finalize_counterexample:
  "txn (txns orphan_heap 3) = Some 8
   \<and> refcount (txns orphan_heap 3) = 1
   \<and> map_option calls (transaction_deref 3 orphan_heap) = Some []
   \<and> map_option freed (transaction_deref 3 orphan_heap) = Some [2, 3]"
  by (simp add: deref_eval ex_defs environment_deref_def Let_def)


end
